theory Spec2Isabelle
  imports Main "HOL-Library.AList" "HOL-Library.Product_Lexorder"
begin

section \<open>Python values\<close>

text \<open>
  A Python \<^verbatim>\<open>str\<close> is a sequence of Unicode code points; \<^verbatim>\<open>len\<close>, the format
  widths and \<^verbatim>\<open>splitlines\<close> count code points. A string is therefore a list of
  code points, and \<open>ascii\<close> reads an ASCII literal.
\<close>

type_synonym pystr = "nat list"

definition ascii :: "string \<Rightarrow> pystr" where
  "ascii s = map of_char s"

text \<open>\<^verbatim>\<open>str(n)\<close> for an integer: its decimal digits, with a minus sign when negative.\<close>

fun str_nat :: "nat \<Rightarrow> pystr" where
  "str_nat n = (if n < 10 then [48 + n] else str_nat (n div 10) @ [48 + n mod 10])"

declare str_nat.simps [simp del]

definition str_int :: "int \<Rightarrow> pystr" where
  "str_int i = (if i < 0 then 45 # str_nat (nat (- i)) else str_nat (nat i))"

text \<open>
  The exceptions the module raises or lets through. \<open>ClientError\<close> is an
  \<^verbatim>\<open>aiohttp.ClientError\<close> of the library itself; \<open>UnexpectedRedirect\<close> and
  \<open>UnexpectedResponseStatus\<close> are the two subclasses of it the module declares.
  \<open>TimeoutError\<close> is \<^verbatim>\<open>asyncio.TimeoutError\<close> and \<open>JSONDecodeError\<close> is
  \<^verbatim>\<open>json.JSONDecodeError\<close>; neither is an \<^verbatim>\<open>aiohttp.ClientError\<close>.
\<close>

datatype py_exception =
    KeyError pystr
  | TypeError
  | ValueError
  | ClientError
  | UnexpectedRedirect
  | UnexpectedResponseStatus
  | FetchingLeaderboardFailed
  | TimeoutError
  | JSONDecodeError

text \<open>
  What a handler \<^verbatim>\<open>except aiohttp.ClientError\<close> catches: the class and its subclasses.
\<close>

definition is_client_error :: "py_exception \<Rightarrow> bool" where
  "is_client_error x =
     (x = ClientError \<or> x = UnexpectedRedirect \<or> x = UnexpectedResponseStatus)"

text \<open>
  A \<^verbatim>\<open>dict\<close> keeps its keys in insertion order, and the code iterates over it, so a
  dictionary is an association list with distinct keys: \<open>map_of\<close> looks a key up,
  \<open>AList.update\<close> is \<^verbatim>\<open>d[k] = v\<close> (in place for a key already there, at the end
  for a new one). \<open>dict_of_items\<close> is \<^verbatim>\<open>dict(items)\<close> and \<open>dict_get\<close> is
  \<^verbatim>\<open>d.get(k, default)\<close>.
\<close>

definition dict_of_items :: "('k \<times> 'v) list \<Rightarrow> ('k \<times> 'v) list" where
  "dict_of_items items = fold (\<lambda>(k, v) d. AList.update k v d) items []"

definition dict_get :: "('k \<times> 'v) list \<Rightarrow> 'k \<Rightarrow> 'v \<Rightarrow> 'v" where
  "dict_get d k dflt = (case map_of d k of None \<Rightarrow> dflt | Some v \<Rightarrow> v)"

text \<open>
  \<^verbatim>\<open>sorted(xs, key=key)\<close> is a stable sort, as \<open>sort_key\<close> is. With
  \<^verbatim>\<open>reverse=True\<close> the list is reversed before and after the stable sort, which
  keeps elements with equal keys in their original order.
\<close>

definition sorted_reverse :: "('a \<Rightarrow> 'k::linorder) \<Rightarrow> 'a list \<Rightarrow> 'a list" where
  "sorted_reverse key xs = rev (sort_key key (rev xs))"

section \<open>The aggregator: \<^verbatim>\<open>_parse_raw_leaderboard_data\<close>\<close>

text \<open>
  The record of one member in the raw data. \<open>m_name\<close> is \<open>None\<close> for the JSON
  \<^verbatim>\<open>null\<close> of an anonymous user. \<open>m_id\<close> is \<open>None\<close> when the record has no key
  \<^verbatim>\<open>"id"\<close>; reading it then raises \<^verbatim>\<open>KeyError\<close>. \<open>completion_day_level\<close> maps
  a day to a star to the integer \<^verbatim>\<open>int(data['get_star_ts'])\<close>. The completion time
  \<^verbatim>\<open>datetime.fromtimestamp(ts)\<close> is modelled by \<open>ts\<close> itself: the conversion keeps
  the order of the timestamps in a time zone of fixed offset.
\<close>

record member =
  m_name :: "pystr option"
  m_id :: "pystr option"
  completion_day_level :: "(pystr \<times> (pystr \<times> int) list) list"

record entry =
  entry_name :: pystr
  score :: int
  star_1 :: nat
  star_2 :: nat

record StarResult =
  member_id :: pystr
  completion_time :: int

record day_stats =
  star_one :: nat
  star_two :: nat

type_synonym leaderboard_dict = "(pystr \<times> entry) list"
type_synonym star_results_dict = "((pystr \<times> pystr) \<times> StarResult list) list"

record parsed =
  daily_stats :: "(pystr \<times> day_stats) list"
  leaderboard :: leaderboard_dict

text \<open>\<^verbatim>\<open>member["name"] if member["name"] else f"Anonymous #{member['id']}"\<close>\<close>

definition display_name :: "member \<Rightarrow> py_exception + pystr" where
  "display_name m =
     (if m_name m \<noteq> None \<and> m_name m \<noteq> Some [] then Inr (the (m_name m))
      else (case m_id m of
              None \<Rightarrow> Inl (KeyError (ascii ''id''))
            | Some i \<Rightarrow> Inr (ascii ''Anonymous #'' @ i)))"

text \<open>
  \<^verbatim>\<open>leaderboard[member_id][f"star_{star}"] += 1\<close>: an entry has the counters
  \<^verbatim>\<open>star_1\<close> and \<^verbatim>\<open>star_2\<close> only, any other star key raises \<^verbatim>\<open>KeyError\<close>.
\<close>

definition add_star :: "pystr \<Rightarrow> entry \<Rightarrow> py_exception + entry" where
  "add_star star e =
     (if star = ascii ''1'' then Inr (e\<lparr>star_1 := star_1 e + 1\<rparr>)
      else if star = ascii ''2'' then Inr (e\<lparr>star_2 := star_2 e + 1\<rparr>)
      else Inl (KeyError (ascii ''star_'' @ star)))"

definition record_star :: "pystr \<Rightarrow> pystr \<Rightarrow> leaderboard_dict \<Rightarrow> py_exception + leaderboard_dict" where
  "record_star mid star lb =
     (case map_of lb mid of
        None \<Rightarrow> Inl (KeyError mid)
      | Some e \<Rightarrow>
          (case add_star star e of
             Inl x \<Rightarrow> Inl x
           | Inr e' \<Rightarrow> Inr (AList.update mid e' lb)))"

text \<open>\<^verbatim>\<open>star_results[(day, star)].append(result)\<close> on a \<^verbatim>\<open>defaultdict(list)\<close>.\<close>

definition append_result ::
  "pystr \<times> pystr \<Rightarrow> StarResult \<Rightarrow> star_results_dict \<Rightarrow> star_results_dict" where
  "append_result k r sr = AList.map_default k [r] (\<lambda>rs. rs @ [r]) sr"

text \<open>The three nested loops over the members, their days and the stars of a day.\<close>

fun stars_loop ::
  "pystr \<Rightarrow> pystr \<Rightarrow> (pystr \<times> int) list \<Rightarrow> leaderboard_dict \<times> star_results_dict
     \<Rightarrow> py_exception + leaderboard_dict \<times> star_results_dict" where
  "stars_loop mid day [] st = Inr st"
| "stars_loop mid day ((star, ts) # rest) (lb, sr) =
     (case record_star mid star lb of
        Inl x \<Rightarrow> Inl x
      | Inr lb' \<Rightarrow>
          stars_loop mid day rest
            (lb', append_result (day, star) \<lparr>member_id = mid, completion_time = ts\<rparr> sr))"

fun days_loop ::
  "pystr \<Rightarrow> (pystr \<times> (pystr \<times> int) list) list \<Rightarrow> leaderboard_dict \<times> star_results_dict
     \<Rightarrow> py_exception + leaderboard_dict \<times> star_results_dict" where
  "days_loop mid [] st = Inr st"
| "days_loop mid ((day, stars) # rest) st =
     (case stars_loop mid day stars st of
        Inl x \<Rightarrow> Inl x
      | Inr st' \<Rightarrow> days_loop mid rest st')"

fun members_loop ::
  "member list \<Rightarrow> leaderboard_dict \<times> star_results_dict
     \<Rightarrow> py_exception + leaderboard_dict \<times> star_results_dict" where
  "members_loop [] st = Inr st"
| "members_loop (m # ms) (lb, sr) =
     (case display_name m of
        Inl x \<Rightarrow> Inl x
      | Inr name \<Rightarrow>
          (case m_id m of
             None \<Rightarrow> Inl (KeyError (ascii ''id''))
           | Some mid \<Rightarrow>
               (case days_loop mid (completion_day_level m)
                       (AList.update mid
                          \<lparr>entry_name = name, score = 0, star_1 = 0, star_2 = 0\<rparr> lb, sr) of
                  Inl x \<Rightarrow> Inl x
                | Inr st' \<Rightarrow> members_loop ms st')))"

text \<open>
  The rank scores of one star: the results sorted by completion time, the member at
  zero-based position \<open>rank\<close> is awarded \<open>max_score - rank\<close>.
\<close>

definition star_awards :: "int \<Rightarrow> StarResult list \<Rightarrow> (pystr \<times> int) list" where
  "star_awards max_score results =
     map (\<lambda>(rank, star_result). (member_id star_result, max_score - int rank))
       (enumerate 0 (sort_key completion_time results))"

text \<open>\<^verbatim>\<open>leaderboard[member_id]["score"] += points\<close>\<close>

definition add_score :: "pystr \<Rightarrow> int \<Rightarrow> leaderboard_dict \<Rightarrow> py_exception + leaderboard_dict" where
  "add_score mid points lb =
     (case map_of lb mid of
        None \<Rightarrow> Inl (KeyError mid)
      | Some e \<Rightarrow> Inr (AList.update mid (e\<lparr>score := score e + points\<rparr>) lb))"

fun award_loop :: "(pystr \<times> int) list \<Rightarrow> leaderboard_dict \<Rightarrow> py_exception + leaderboard_dict" where
  "award_loop [] lb = Inr lb"
| "award_loop ((mid, points) # rest) lb =
     (case add_score mid points lb of
        Inl x \<Rightarrow> Inl x
      | Inr lb' \<Rightarrow> award_loop rest lb')"

text \<open>
  The loop over the stars; \<open>ignored_days\<close> is \<^verbatim>\<open>AdventOfCode.ignored_days\<close>, a
  constant of the bot's configuration.
\<close>

fun score_loop ::
  "pystr list \<Rightarrow> int \<Rightarrow> star_results_dict \<Rightarrow> leaderboard_dict \<Rightarrow> py_exception + leaderboard_dict" where
  "score_loop ignored_days max_score [] lb = Inr lb"
| "score_loop ignored_days max_score (((day, star), results) # rest) lb =
     (if day \<in> set ignored_days then score_loop ignored_days max_score rest lb
      else (case award_loop (star_awards max_score results) lb of
              Inl x \<Rightarrow> Inl x
            | Inr lb' \<Rightarrow> score_loop ignored_days max_score rest lb'))"

definition leaderboard_sorting_function :: "pystr \<times> entry \<Rightarrow> int \<times> nat" where
  "leaderboard_sorting_function e = (let result = snd e in (score result, star_2 result + star_1 result))"

text \<open>The summary of the stars completed on each of the days 1 to 25.\<close>

definition daily_stats_of :: "star_results_dict \<Rightarrow> (pystr \<times> day_stats) list" where
  "daily_stats_of star_results =
     fold (\<lambda>d stats.
             let day = str_nat d;
                 one = length (dict_get star_results (day, ascii ''1'') []);
                 two = length (dict_get star_results (day, ascii ''2'') [])
             in AList.update day \<lparr>star_one = one, star_two = two\<rparr> stats)
       [1..<26] []"

definition parse_raw_leaderboard_data ::
  "pystr list \<Rightarrow> (pystr \<times> member) list \<Rightarrow> py_exception + parsed" where
  "parse_raw_leaderboard_data ignored_days raw_leaderboard_data =
     (case members_loop (map snd raw_leaderboard_data) ([], []) of
        Inl x \<Rightarrow> Inl x
      | Inr (lb, star_results) \<Rightarrow>
          (case score_loop ignored_days (int (length lb)) star_results lb of
             Inl x \<Rightarrow> Inl x
           | Inr lb' \<Rightarrow>
               Inr \<lparr>daily_stats = daily_stats_of star_results,
                    leaderboard =
                      dict_of_items (sorted_reverse leaderboard_sorting_function lb')\<rparr>))"

text \<open>
  The example of the specification, as it is written there: two members, neither record
  has the key \<^verbatim>\<open>"id"\<close>. \<open>example_raw_with_ids\<close> is the same data with the key, as the
  Advent of Code API sends it.
\<close>

definition example_raw :: "(pystr \<times> member) list" where
  "example_raw =
     [(ascii ''1'',
        \<lparr>m_name = Some (ascii ''A''), m_id = None,
         completion_day_level = [(ascii ''1'', [(ascii ''1'', 100)])]\<rparr>),
      (ascii ''2'',
        \<lparr>m_name = Some (ascii ''B''), m_id = None,
         completion_day_level = [(ascii ''1'', [(ascii ''1'', 200)])]\<rparr>)]"

definition example_raw_with_ids :: "(pystr \<times> member) list" where
  "example_raw_with_ids = map (\<lambda>(k, m). (k, m\<lparr>m_id := Some k\<rparr>)) example_raw"

section \<open>What the loops of the aggregator compute\<close>

text \<open>
  Closed forms of the state the loops build, used to state and prove the properties
  below. A star key is valid when it is \<^verbatim>\<open>"1"\<close> or \<^verbatim>\<open>"2"\<close>, a member when its record
  has an id and valid star keys only. \<open>completions\<close> lists the completion records in
  the order the loops visit them, \<open>group_results\<close> groups them by day and star as
  \<^verbatim>\<open>star_results\<close> does, \<open>entries_of\<close> is the leaderboard after the first pass,
  and \<open>with_awards\<close> adds to each entry the rank scores awarded to its member.
\<close>

definition valid_star :: "pystr \<Rightarrow> bool" where
  "valid_star star = (star = ascii ''1'' \<or> star = ascii ''2'')"

definition star_keys :: "(pystr \<times> (pystr \<times> int) list) list \<Rightarrow> pystr list" where
  "star_keys cdl = concat (map (\<lambda>(day, stars). map fst stars) cdl)"

definition member_completions ::
  "pystr \<Rightarrow> (pystr \<times> (pystr \<times> int) list) list \<Rightarrow> ((pystr \<times> pystr) \<times> StarResult) list" where
  "member_completions mid cdl =
     concat (map (\<lambda>(day, stars).
                    map (\<lambda>(star, ts). ((day, star), \<lparr>member_id = mid, completion_time = ts\<rparr>)) stars)
               cdl)"

definition with_stars :: "pystr list \<Rightarrow> entry \<Rightarrow> entry" where
  "with_stars keys e =
     e\<lparr>star_1 := star_1 e + count_list keys (ascii ''1''),
       star_2 := star_2 e + count_list keys (ascii ''2'')\<rparr>"

definition group_results ::
  "((pystr \<times> pystr) \<times> StarResult) list \<Rightarrow> star_results_dict \<Rightarrow> star_results_dict" where
  "group_results flat sr = fold (\<lambda>(k, r). append_result k r) flat sr"

definition valid_member :: "member \<Rightarrow> bool" where
  "valid_member m =
     (m_id m \<noteq> None \<and> list_all valid_star (star_keys (completion_day_level m)))"

definition name_of :: "member \<Rightarrow> pystr" where
  "name_of m =
     (if m_name m \<noteq> None \<and> m_name m \<noteq> Some [] then the (m_name m)
      else ascii ''Anonymous #'' @ the (m_id m))"

definition entry_of :: "member \<Rightarrow> entry" where
  "entry_of m =
     with_stars (star_keys (completion_day_level m))
       \<lparr>entry_name = name_of m, score = 0, star_1 = 0, star_2 = 0\<rparr>"

definition completions :: "member list \<Rightarrow> ((pystr \<times> pystr) \<times> StarResult) list" where
  "completions ms =
     concat (map (\<lambda>m. member_completions (the (m_id m)) (completion_day_level m)) ms)"

definition entries_of :: "member list \<Rightarrow> leaderboard_dict \<Rightarrow> leaderboard_dict" where
  "entries_of ms lb = fold (\<lambda>m. AList.update (the (m_id m)) (entry_of m)) ms lb"

definition awarded :: "(pystr \<times> int) list \<Rightarrow> pystr \<Rightarrow> int" where
  "awarded awards k = sum_list (map snd (filter (\<lambda>a. fst a = k) awards))"

definition with_awards :: "(pystr \<times> int) list \<Rightarrow> leaderboard_dict \<Rightarrow> leaderboard_dict" where
  "with_awards awards lb = map (\<lambda>(k, e). (k, e\<lparr>score := score e + awarded awards k\<rparr>)) lb"

definition all_awards :: "pystr list \<Rightarrow> int \<Rightarrow> star_results_dict \<Rightarrow> (pystr \<times> int) list" where
  "all_awards ignored_days max_score sr =
     concat (map (\<lambda>((day, star), results).
                    if day \<in> set ignored_days then [] else star_awards max_score results) sr)"

definition first_pass_leaderboard :: "(pystr \<times> member) list \<Rightarrow> leaderboard_dict" where
  "first_pass_leaderboard raw = entries_of (map snd raw) []"

definition star_results_of :: "(pystr \<times> member) list \<Rightarrow> star_results_dict" where
  "star_results_of raw = group_results (completions (map snd raw)) []"

definition scored_leaderboard :: "pystr list \<Rightarrow> (pystr \<times> member) list \<Rightarrow> leaderboard_dict" where
  "scored_leaderboard ignored_days raw =
     with_awards
       (all_awards ignored_days (int (length (first_pass_leaderboard raw))) (star_results_of raw))
       (first_pass_leaderboard raw)"

text \<open>
  The order of the final leaderboard: \<open>a\<close> may stand before \<open>b\<close> when it has the
  higher score, or the same score and at least as many stars.
\<close>

definition ranks_before :: "entry \<Rightarrow> entry \<Rightarrow> bool" where
  "ranks_before a b =
     (score a > score b \<or> score a = score b \<and> star_1 a + star_2 a \<ge> star_1 b + star_2 b)"

text \<open>The value the aggregator returns on \<open>example_raw_with_ids\<close>.\<close>

definition example_parsed :: parsed where
  "example_parsed =
     \<lparr>daily_stats =
        map (\<lambda>d. (str_nat d, \<lparr>star_one = (if d = 1 then 2 else 0), star_two = 0\<rparr>)) [1..<26],
      leaderboard =
        [(ascii ''1'', \<lparr>entry_name = ascii ''A'', score = 2, star_1 = 1, star_2 = 0\<rparr>),
         (ascii ''2'', \<lparr>entry_name = ascii ''B'', score = 1, star_1 = 1, star_2 = 0\<rparr>)]\<rparr>"

section \<open>Well-formed raw data\<close>

text \<open>
  The raw data is a \<^verbatim>\<open>dict\<close> of \<^verbatim>\<open>dict\<close>s: keys are unique at every level, and so
  are the ids of the members. \<open>has_star m day star\<close> is
  \<^verbatim>\<open>star in m["completion_day_level"].get(day, {})\<close>, and \<open>participants_with\<close>
  counts the participants with a record for a star.
\<close>

definition has_star :: "member \<Rightarrow> pystr \<Rightarrow> pystr \<Rightarrow> bool" where
  "has_star m day star =
     (case map_of (completion_day_level m) day of
        None \<Rightarrow> False
      | Some stars \<Rightarrow> map_of stars star \<noteq> None)"

definition participants_with :: "(pystr \<times> member) list \<Rightarrow> pystr \<Rightarrow> pystr \<Rightarrow> nat" where
  "participants_with raw day star = length (filter (\<lambda>m. has_star m day star) (map snd raw))"

definition wf_member :: "member \<Rightarrow> bool" where
  "wf_member m =
     (distinct (map fst (completion_day_level m)) \<and>
      list_all (\<lambda>d. distinct (map fst (snd d))) (completion_day_level m))"

definition wf_raw :: "(pystr \<times> member) list \<Rightarrow> bool" where
  "wf_raw raw =
     (distinct (map fst raw) \<and> distinct (map (\<lambda>p. m_id (snd p)) raw) \<and>
      list_all (\<lambda>p. wf_member (snd p)) raw)"

text \<open>The state after the first pass on \<open>example_raw_with_ids\<close>.\<close>

definition example_first_pass :: leaderboard_dict where
  "example_first_pass =
     [(ascii ''1'', \<lparr>entry_name = ascii ''A'', score = 0, star_1 = 1, star_2 = 0\<rparr>),
      (ascii ''2'', \<lparr>entry_name = ascii ''B'', score = 0, star_1 = 1, star_2 = 0\<rparr>)]"

definition example_results :: "StarResult list" where
  "example_results =
     [\<lparr>member_id = ascii ''1'', completion_time = 100\<rparr>,
      \<lparr>member_id = ascii ''2'', completion_time = 200\<rparr>]"

section \<open>Completions on ignored days\<close>

text \<open>
  \<open>drop_ignored\<close> removes from the raw data every completion on an ignored day. Two
  inputs differ only in the completions on ignored days (their presence or their
  timestamps) when \<open>drop_ignored\<close> maps them to the same data.
\<close>

definition drop_ignored_days :: "pystr list \<Rightarrow> member \<Rightarrow> member" where
  "drop_ignored_days ignored_days m =
     m\<lparr>completion_day_level := filter (\<lambda>d. fst d \<notin> set ignored_days) (completion_day_level m)\<rparr>"

definition drop_ignored :: "pystr list \<Rightarrow> (pystr \<times> member) list \<Rightarrow> (pystr \<times> member) list" where
  "drop_ignored ignored_days raw = map (\<lambda>p. (fst p, drop_ignored_days ignored_days (snd p))) raw"

text \<open>
  A second example: member 1 has also completed star 1 of day 2, and day 2 is ignored.
  \<open>example_parsed_day2\<close> is the value the aggregator returns on it.
\<close>

definition example_raw_day2 :: "(pystr \<times> member) list" where
  "example_raw_day2 =
     [(ascii ''1'',
        \<lparr>m_name = Some (ascii ''A''), m_id = Some (ascii ''1''),
         completion_day_level =
           [(ascii ''1'', [(ascii ''1'', 100)]), (ascii ''2'', [(ascii ''1'', 50)])]\<rparr>),
      (ascii ''2'',
        \<lparr>m_name = Some (ascii ''B''), m_id = Some (ascii ''2''),
         completion_day_level = [(ascii ''1'', [(ascii ''1'', 200)])]\<rparr>)]"

definition example_parsed_day2 :: parsed where
  "example_parsed_day2 =
     \<lparr>daily_stats =
        map (\<lambda>d. (str_nat d,
                  \<lparr>star_one = (if d = 1 then 2 else if d = 2 then 1 else 0), star_two = 0\<rparr>))
          [1..<26],
      leaderboard =
        [(ascii ''1'', \<lparr>entry_name = ascii ''A'', score = 2, star_1 = 2, star_2 = 0\<rparr>),
         (ascii ''2'', \<lparr>entry_name = ascii ''B'', score = 1, star_1 = 1, star_2 = 0\<rparr>)]\<rparr>"

text \<open>The number of completions of a star in the record of a member, on any day.\<close>

definition completed :: "member \<Rightarrow> pystr \<Rightarrow> nat" where
  "completed m star = count_list (star_keys (completion_day_level m)) star"

text \<open>The keys of the daily statistics, \<^verbatim>\<open>str(day)\<close> for the days 1 to 25.\<close>

definition day_keys :: "pystr list" where
  "day_keys =
     [ascii ''1'', ascii ''2'', ascii ''3'', ascii ''4'', ascii ''5'', ascii ''6'', ascii ''7'',
      ascii ''8'', ascii ''9'', ascii ''10'', ascii ''11'', ascii ''12'', ascii ''13'',
      ascii ''14'', ascii ''15'', ascii ''16'', ascii ''17'', ascii ''18'', ascii ''19'',
      ascii ''20'', ascii ''21'', ascii ''22'', ascii ''23'', ascii ''24'', ascii ''25'']"

section \<open>The formatter: \<^verbatim>\<open>_format_leaderboard\<close> and \<^verbatim>\<open>_get_top_leaderboard\<close>\<close>

text \<open>
  \<^verbatim>\<open>str.splitlines\<close> ends a line at \<^verbatim>\<open>\n\<close>, \<^verbatim>\<open>\r\<close>, \<^verbatim>\<open>\r\n\<close>, \<^verbatim>\<open>\v\<close>, \<^verbatim>\<open>\f\<close>,
  \<^verbatim>\<open>\x1c\<close>, \<^verbatim>\<open>\x1d\<close>, \<^verbatim>\<open>\x1e\<close>, \<^verbatim>\<open>\x85\<close>, \<^verbatim>\<open>U+2028\<close> and \<^verbatim>\<open>U+2029\<close>, and gives no
  empty last line. \<open>splitlines_from cur s\<close> splits \<open>s\<close> after the characters \<open>cur\<close>
  of the line that is open.
\<close>

definition is_line_break :: "nat \<Rightarrow> bool" where
  "is_line_break c =
     (c = 10 \<or> c = 11 \<or> c = 12 \<or> c = 13 \<or> c = 28 \<or> c = 29 \<or> c = 30 \<or>
      c = 133 \<or> c = 8232 \<or> c = 8233)"

fun splitlines_from :: "pystr \<Rightarrow> pystr \<Rightarrow> pystr list" where
  "splitlines_from cur [] = (if cur = [] then [] else [cur])"
| "splitlines_from cur [c] = (if is_line_break c then [cur] else [cur @ [c]])"
| "splitlines_from cur (c # d # cs) =
     (if c = 13 \<and> d = 10 then cur # splitlines_from [] cs
      else if is_line_break c then cur # splitlines_from [] (d # cs)
      else splitlines_from (cur @ [c]) (d # cs))"

definition splitlines :: "pystr \<Rightarrow> pystr list" where
  "splitlines s = splitlines_from [] s"

text \<open>\<^verbatim>\<open>sep.join(lines)\<close>\<close>

fun join :: "pystr \<Rightarrow> pystr list \<Rightarrow> pystr" where
  "join sep [] = []"
| "join sep [l] = l"
| "join sep (l # m # ls) = l @ sep @ join sep (m # ls)"

text \<open>
  The format specifications of the line template: \<^verbatim>\<open>{x: >w}\<close> pads on the left with
  spaces to the width \<open>w\<close>, \<^verbatim>\<open>{x:25.25}\<close> cuts a string to 25 characters and pads it
  on the right to the width 25.
\<close>

definition rjust :: "nat \<Rightarrow> pystr \<Rightarrow> pystr" where
  "rjust w s = replicate (w - length s) 32 @ s"

definition ljust :: "nat \<Rightarrow> pystr \<Rightarrow> pystr" where
  "ljust w s = s @ replicate (w - length s) 32"

text \<open>\<^verbatim>\<open>AOC_TABLE_TEMPLATE.format(rank=..., name=..., score=..., stars=...)\<close>\<close>

definition AOC_TABLE_TEMPLATE :: "pystr \<Rightarrow> pystr \<Rightarrow> pystr \<Rightarrow> pystr \<Rightarrow> pystr" where
  "AOC_TABLE_TEMPLATE rank name score_text stars =
     rjust 4 rank @ ascii '' | '' @ ljust 25 (take 25 name) @ ascii '' | '' @
     rjust 5 score_text @ ascii '' | '' @ stars"

text \<open>The header; its stars column is the text of three \<^verbatim>\<open>U+2B50\<close> stars.\<close>

definition HEADER_row :: pystr where
  "HEADER_row =
     AOC_TABLE_TEMPLATE [] (ascii ''Name'') (ascii ''Score'') [11088, 44, 32, 11088, 11088]"

definition HEADER :: pystr where
  "HEADER = HEADER_row @ [10] @ replicate (length HEADER_row + 2) 45"

definition HEADER_LINES :: nat where
  "HEADER_LINES = length (splitlines HEADER)"

text \<open>
  \<open>leaderboard_displayed_members\<close> is \<^verbatim>\<open>AdventOfCode.leaderboard_displayed_members\<close>,
  a number of members set in the bot's configuration.
\<close>

definition TOP_LEADERBOARD_LINES :: "nat \<Rightarrow> nat" where
  "TOP_LEADERBOARD_LINES leaderboard_displayed_members = HEADER_LINES + leaderboard_displayed_members"

definition format_row :: "nat \<times> pystr \<times> entry \<Rightarrow> pystr" where
  "format_row r =
     (let rank = fst r; data = snd (snd r)
      in AOC_TABLE_TEMPLATE (str_nat rank) (entry_name data) (str_int (score data))
           (ascii ''('' @ str_nat (star_1 data) @ ascii '', '' @ str_nat (star_2 data) @ ascii '')''))"

definition format_leaderboard :: "leaderboard_dict \<Rightarrow> pystr" where
  "format_leaderboard lb = join [10] ([HEADER] @ map format_row (enumerate 1 lb))"

definition get_top_leaderboard :: "nat \<Rightarrow> pystr \<Rightarrow> pystr" where
  "get_top_leaderboard leaderboard_displayed_members full_leaderboard =
     join [10] (take (TOP_LEADERBOARD_LINES leaderboard_displayed_members) (splitlines full_leaderboard))"

text \<open>A string without a character that ends a line.\<close>

definition no_line_break :: "pystr \<Rightarrow> bool" where
  "no_line_break s = list_all (\<lambda>c. \<not> is_line_break c) s"

text \<open>Raw data of one member whose name holds a line feed, \<^verbatim>\<open>"A\nB"\<close>.\<close>

definition example_raw_newline :: "(pystr \<times> member) list" where
  "example_raw_newline =
     [(ascii ''1'',
        \<lparr>m_name = Some [65, 10, 66], m_id = Some (ascii ''1''), completion_day_level = []\<rparr>)]"

definition example_leaderboard_newline :: leaderboard_dict where
  "example_leaderboard_newline =
     [(ascii ''1'', \<lparr>entry_name = [65, 10, 66], score = 0, star_1 = 0, star_2 = 0\<rparr>)]"

text \<open>The second line of the header, a rule of dashes.\<close>

definition HEADER_rule :: pystr where
  "HEADER_rule = replicate (length HEADER_row + 2) 45"

section \<open>The paste service: \<^verbatim>\<open>_upload_leaderboard\<close>\<close>

text \<open>
  A decoded JSON value (numbers are integers here). What the paste service answers to
  the upload: the request itself raises an \<^verbatim>\<open>aiohttp.ClientError\<close>, or a response
  arrives whose body \<^verbatim>\<open>resp.json()\<close> cannot decode (it raises, whatever the reason), or
  \<^verbatim>\<open>resp.json()\<close> returns a value.
\<close>

datatype json =
    JNull
  | JBool bool
  | JInt int
  | JStr pystr
  | JList "json list"
  | JObj "(pystr \<times> json) list"

datatype paste_outcome =
    PasteRequestFails
  | PasteBodyNotJson
  | PasteJson json

text \<open>\<^verbatim>\<open>sub in s\<close> for two strings: \<open>sub\<close> occurs in \<open>s\<close>.\<close>

fun str_contains :: "pystr \<Rightarrow> pystr \<Rightarrow> bool" where
  "str_contains sub [] = (sub = [])"
| "str_contains sub (c # cs) = (take (length sub) (c # cs) = sub \<or> str_contains sub cs)"

text \<open>
  \<^verbatim>\<open>key in value\<close> for a string \<open>key\<close>: a key of a \<^verbatim>\<open>dict\<close>, an element of a
  \<^verbatim>\<open>list\<close>, a substring of a \<^verbatim>\<open>str\<close>; \<^verbatim>\<open>None\<close>, a \<^verbatim>\<open>bool\<close> and an \<^verbatim>\<open>int\<close> are
  not iterable and raise \<^verbatim>\<open>TypeError\<close>.
\<close>

fun json_contains :: "pystr \<Rightarrow> json \<Rightarrow> py_exception + bool" where
  "json_contains key (JObj d) = Inr (key \<in> fst ` set d)"
| "json_contains key (JList xs) = Inr (JStr key \<in> set xs)"
| "json_contains key (JStr s) = Inr (str_contains key s)"
| "json_contains key JNull = Inl TypeError"
| "json_contains key (JBool b) = Inl TypeError"
| "json_contains key (JInt i) = Inl TypeError"

text \<open>
  \<^verbatim>\<open>value[key]\<close> for a string \<open>key\<close>: the value of a \<^verbatim>\<open>dict\<close> or \<^verbatim>\<open>KeyError\<close>;
  a \<^verbatim>\<open>list\<close> and a \<^verbatim>\<open>str\<close> take integer indices only, nothing else can be
  subscripted.
\<close>

fun json_subscript :: "json \<Rightarrow> pystr \<Rightarrow> py_exception + json" where
  "json_subscript (JObj d) key =
     (case map_of d key of None \<Rightarrow> Inl (KeyError key) | Some v \<Rightarrow> Inr v)"
| "json_subscript j key = Inl TypeError"

text \<open>
  The text \<^verbatim>\<open>str.format\<close> puts for a value. \<open>repr\<close> is the text Python gives for a
  \<^verbatim>\<open>list\<close> or a \<^verbatim>\<open>dict\<close>, which this development takes as a parameter.
\<close>

definition format_value :: "(json \<Rightarrow> pystr) \<Rightarrow> json \<Rightarrow> pystr" where
  "format_value repr v =
     (case v of
        JStr s \<Rightarrow> s
      | JInt i \<Rightarrow> str_int i
      | JBool b \<Rightarrow> (if b then ascii ''True'' else ascii ''False'')
      | JNull \<Rightarrow> ascii ''None''
      | _ \<Rightarrow> repr v)"

definition RAW_PASTE_URL_TEMPLATE :: "pystr \<Rightarrow> pystr" where
  "RAW_PASTE_URL_TEMPLATE key = ascii ''https://paste.pythondiscord.com/raw/'' @ key"

definition upload_leaderboard :: "(json \<Rightarrow> pystr) \<Rightarrow> paste_outcome \<Rightarrow> py_exception + pystr" where
  "upload_leaderboard repr outcome =
     (case outcome of
        PasteRequestFails \<Rightarrow> Inl ClientError
      | PasteBodyNotJson \<Rightarrow> Inr []
      | PasteJson resp_json \<Rightarrow>
          (case json_contains (ascii ''key'') resp_json of
             Inl x \<Rightarrow> Inl x
           | Inr True \<Rightarrow>
               (case json_subscript resp_json (ascii ''key'') of
                  Inl x \<Rightarrow> Inl x
                | Inr v \<Rightarrow> Inr (RAW_PASTE_URL_TEMPLATE (format_value repr v)))
           | Inr False \<Rightarrow> Inr []))"

section \<open>The configuration, the caches and the network\<close>

text \<open>
  The constants of \<^verbatim>\<open>bot.constants.AdventOfCode\<close> the module reads. They are set in
  the bot's configuration and are parameters here.
\<close>

record config =
  aoc_year :: int
  aoc_fallback_session :: pystr
  aoc_staff_leaderboard_id :: pystr
  aoc_ignored_days :: "pystr list"
  aoc_leaderboard_displayed_members :: nat

text \<open>
  One leaderboard of \<^verbatim>\<open>AdventOfCode.leaderboards\<close>, a dictionary from the id of a
  board to the board; \<open>board_session\<close> is its own session cookie.
\<close>

record AdventOfCodeLeaderboard =
  board_id :: pystr
  board_session :: pystr
  join_code :: pystr
  use_fallback_session :: bool

text \<open>
  Modelled from the spec: the property \<^verbatim>\<open>session\<close> of a board is declared in
  \<^verbatim>\<open>bot.constants\<close>, which is not among the sources. A board whose credential was
  found invalid is switched to the fallback credential: the property gives the
  fallback session once \<^verbatim>\<open>use_fallback_session\<close> is set, the board's own otherwise.
\<close>

definition session :: "config \<Rightarrow> AdventOfCodeLeaderboard \<Rightarrow> pystr" where
  "session cfg board =
     (if use_fallback_session board then aoc_fallback_session cfg else board_session board)"

text \<open>
  The value \<^verbatim>\<open>resp.json()\<close> decodes, as far as the fetcher looks at it: a JSON value
  that is no object (\<^verbatim>\<open>None\<close> for an empty body among them), or an object with the
  value of its key \<^verbatim>\<open>"members"\<close>, which is \<open>None\<close> when the object has no such
  key. The value of the key is the dictionary of members the aggregator reads.
\<close>

datatype raw_json =
    RawNotObject
  | RawObject "(pystr \<times> member) list option"

text \<open>
  The body of a response under \<^verbatim>\<open>resp.json()\<close>: the call raises (an
  \<^verbatim>\<open>aiohttp.ClientError\<close> when the payload breaks off or the content type is not
  JSON, \<^verbatim>\<open>json.JSONDecodeError\<close> when the text is no JSON,
  \<^verbatim>\<open>asyncio.TimeoutError\<close> when the body does not arrive in time), or it returns
  the decoded value.
\<close>

datatype response_body =
    BodyRaises py_exception
  | BodyJson raw_json

text \<open>
  What a \<^verbatim>\<open>GET\<close> request meets: \<^verbatim>\<open>aiohttp.request\<close> raises (an
  \<^verbatim>\<open>aiohttp.ClientError\<close> when the connection fails, \<^verbatim>\<open>asyncio.TimeoutError\<close>
  when the time allowed for the request runs out), or a response arrives with its final
  URL, its status and its body.
\<close>

datatype http_outcome =
    RequestRaises py_exception
  | Response pystr int response_body

text \<open>
  The world outside the module. Requests, uploads and readings of the clock are
  numbered; the environment fixes what the \<open>n\<close>-th one meets. \<open>py_repr\<close> is the text
  Python gives for a list or a dictionary.
\<close>

record environment =
  http_get :: "nat \<Rightarrow> pystr \<Rightarrow> pystr \<Rightarrow> http_outcome"
  paste_post :: "nat \<Rightarrow> pystr \<Rightarrow> paste_outcome"
  utcnow :: "nat \<Rightarrow> pystr"
  py_repr :: "json \<Rightarrow> pystr"

text \<open>
  A value of the leaderboard cache. The daily statistics are cached as their JSON text,
  which is kept here as the value it encodes.
\<close>

datatype cache_value =
    CStr pystr
  | CInt int
  | CStats "(pystr \<times> day_stats) list"

text \<open>
  The state the module reads and writes: the boards (their \<^verbatim>\<open>use_fallback_session\<close>
  flags change), the three Redis caches of \<^verbatim>\<open>_caches\<close>, and two records of what has
  happened: the \<^verbatim>\<open>GET\<close> requests made so far, each with its URL and session cookie, and
  the number of refreshes of the leaderboard cache. A cache is a dictionary; the expiry
  of the leaderboard cache is an action of the store in time, which no function of the
  module takes.
\<close>

record world =
  leaderboards :: "AdventOfCodeLeaderboard list"
  leaderboard_counts :: "(pystr \<times> nat) list"
  leaderboard_cache :: "(pystr \<times> cache_value) list"
  assigned_leaderboard :: "(int \<times> pystr) list"
  requests :: "(pystr \<times> pystr) list"
  refreshes :: nat

text \<open>\<^verbatim>\<open>d.update(other)\<close>\<close>

definition dict_update :: "('k \<times> 'v) list \<Rightarrow> ('k \<times> 'v) list \<Rightarrow> ('k \<times> 'v) list" where
  "dict_update d other = fold (\<lambda>(k, v) d. AList.update k v d) other d"

section \<open>The raw fetcher: \<^verbatim>\<open>_leaderboard_request\<close> and \<^verbatim>\<open>_fetch_leaderboard_data\<close>\<close>

definition AOC_API_URL :: "int \<Rightarrow> pystr \<Rightarrow> pystr" where
  "AOC_API_URL y leaderboard_id =
     ascii ''https://adventofcode.com/'' @ str_int y @
     ascii ''/leaderboard/private/view/'' @ leaderboard_id @ ascii ''.json''"

text \<open>
  \<^verbatim>\<open>_leaderboard_request\<close> on what the request met: an exception of the request
  itself passes through; on a response the function checks first the URL, then the
  status, and then decodes the body, whose exception passes through as well.
\<close>

definition leaderboard_request :: "pystr \<Rightarrow> http_outcome \<Rightarrow> py_exception + raw_json" where
  "leaderboard_request url outcome =
     (case outcome of
        RequestRaises x \<Rightarrow> Inl x
      | Response resp_url status body \<Rightarrow>
          if resp_url \<noteq> url then Inl UnexpectedRedirect
          else if \<not> status = 200 then Inl UnexpectedResponseStatus
          else (case body of
                  BodyRaises x \<Rightarrow> Inl x
                | BodyJson raw_data \<Rightarrow> Inr raw_data))"

text \<open>
  The subscript \<^verbatim>\<open>raw_data["members"]\<close>, which is under no handler: a value that is
  no object raises \<^verbatim>\<open>TypeError\<close>, an object without the key raises
  \<^verbatim>\<open>KeyError\<close>.
\<close>

definition raw_members :: "raw_json \<Rightarrow> py_exception + (pystr \<times> member) list" where
  "raw_members raw_data =
     (case raw_data of
        RawNotObject \<Rightarrow> Inl TypeError
      | RawObject None \<Rightarrow> Inl (KeyError (ascii ''members''))
      | RawObject (Some board_participants) \<Rightarrow> Inr board_participants)"

text \<open>
  The attempts for one board, \<^verbatim>\<open>for attempt in range(1, 3)\<close>, with the number of
  attempts left. The result is the members of the board or the exception, the board and
  the requests made. The first handler catches \<^verbatim>\<open>UnexpectedRedirect\<close>, the second
  every other \<^verbatim>\<open>aiohttp.ClientError\<close>; an exception that is none of these leaves the
  function as it is. With no attempt left the \<^verbatim>\<open>else\<close> of the loop raises.
\<close>

fun fetch_attempts ::
  "config \<Rightarrow> (nat \<Rightarrow> pystr \<Rightarrow> pystr \<Rightarrow> http_outcome) \<Rightarrow> pystr \<Rightarrow> nat \<Rightarrow>
   AdventOfCodeLeaderboard \<Rightarrow> (pystr \<times> pystr) list \<Rightarrow>
   (py_exception + (pystr \<times> member) list) \<times> AdventOfCodeLeaderboard \<times> (pystr \<times> pystr) list" where
  "fetch_attempts cfg get url 0 board log = (Inl FetchingLeaderboardFailed, board, log)"
| "fetch_attempts cfg get url (Suc attempts) board log =
     (let cookie = session cfg board;
          log' = log @ [(url, cookie)]
      in case leaderboard_request url (get (length log) url cookie) of
           Inl x \<Rightarrow>
             if x = UnexpectedRedirect
             then if cookie = aoc_fallback_session cfg
                  then (Inl FetchingLeaderboardFailed, board, log')
                  else fetch_attempts cfg get url attempts
                         (board\<lparr>use_fallback_session := True\<rparr>) log'
             else if is_client_error x then (Inl FetchingLeaderboardFailed, board, log')
             else (Inl x, board, log')
         | Inr raw_data \<Rightarrow> (raw_members raw_data, board, log'))"

text \<open>
  The loop over the boards. \<open>fetched\<close> are the boards already done, with their flags
  as the loop left them.
\<close>

fun fetch_boards ::
  "config \<Rightarrow> (nat \<Rightarrow> pystr \<Rightarrow> pystr \<Rightarrow> http_outcome) \<Rightarrow> AdventOfCodeLeaderboard list \<Rightarrow>
   AdventOfCodeLeaderboard list \<Rightarrow> world \<Rightarrow> (pystr \<times> member) list \<Rightarrow>
   (py_exception + (pystr \<times> member) list) \<times> world" where
  "fetch_boards cfg get fetched [] w participants = (Inr participants, w\<lparr>leaderboards := fetched\<rparr>)"
| "fetch_boards cfg get fetched (board # todo) w participants =
     (case fetch_attempts cfg get (AOC_API_URL (aoc_year cfg) (board_id board)) 2 board (requests w) of
        (Inl x, board', log) \<Rightarrow>
          (Inl x, w\<lparr>leaderboards := fetched @ board' # todo, requests := log\<rparr>)
      | (Inr board_participants, board', log) \<Rightarrow>
          fetch_boards cfg get (fetched @ [board']) todo
            (w\<lparr>requests := log,
               leaderboard_counts :=
                 AList.update (board_id board) (length board_participants) (leaderboard_counts w)\<rparr>)
            (dict_update participants board_participants))"

definition fetch_leaderboard_data ::
  "config \<Rightarrow> (nat \<Rightarrow> pystr \<Rightarrow> pystr \<Rightarrow> http_outcome) \<Rightarrow> world \<Rightarrow>
   (py_exception + (pystr \<times> member) list) \<times> world" where
  "fetch_leaderboard_data cfg get w = fetch_boards cfg get [] (leaderboards w) w []"

section \<open>The cached leaderboard: \<^verbatim>\<open>fetch_leaderboard\<close>\<close>

definition REQUIRED_CACHE_KEYS :: "pystr list" where
  "REQUIRED_CACHE_KEYS =
     [ascii ''full_leaderboard'', ascii ''top_leaderboard'', ascii ''full_leaderboard_url'',
      ascii ''leaderboard_fetched_at'', ascii ''number_of_participants'', ascii ''daily_stats'']"

definition fetch_leaderboard ::
  "config \<Rightarrow> environment \<Rightarrow> bool \<Rightarrow> world \<Rightarrow> (py_exception + (pystr \<times> cache_value) list) \<times> world" where
  "fetch_leaderboard cfg env invalidate_cache w =
     (let cached_leaderboard = leaderboard_cache w
      in if invalidate_cache \<or>
            list_ex (\<lambda>k. k \<notin> fst ` set cached_leaderboard) REQUIRED_CACHE_KEYS
         then
           (case fetch_leaderboard_data cfg (http_get env) w of
              (Inl x, w1) \<Rightarrow> (Inl x, w1)
            | (Inr raw_leaderboard_data, w1) \<Rightarrow>
                (case parse_raw_leaderboard_data (aoc_ignored_days cfg) raw_leaderboard_data of
                   Inl x \<Rightarrow> (Inl x, w1)
                 | Inr parsed_leaderboard_data \<Rightarrow>
                     let lb = leaderboard parsed_leaderboard_data;
                         number_of_participants = length lb;
                         formatted_leaderboard = format_leaderboard lb;
                         w2 = w1\<lparr>refreshes := Suc (refreshes w1)\<rparr>
                     in (case upload_leaderboard (py_repr env)
                                 (paste_post env (refreshes w1) formatted_leaderboard) of
                           Inl x \<Rightarrow> (Inl x, w2)
                         | Inr full_leaderboard_url \<Rightarrow>
                             let cached =
                                   [(ascii ''full_leaderboard'', CStr formatted_leaderboard),
                                    (ascii ''top_leaderboard'',
                                       CStr (get_top_leaderboard
                                               (aoc_leaderboard_displayed_members cfg)
                                               formatted_leaderboard)),
                                    (ascii ''full_leaderboard_url'', CStr full_leaderboard_url),
                                    (ascii ''leaderboard_fetched_at'', CStr (utcnow env (refreshes w1))),
                                    (ascii ''number_of_participants'', CInt (int number_of_participants)),
                                    (ascii ''daily_stats'', CStats (daily_stats parsed_leaderboard_data))]
                             in (Inr cached,
                                 w2\<lparr>leaderboard_cache := dict_update (leaderboard_cache w2) cached\<rparr>))))
         else (Inr cached_leaderboard, w))"

section \<open>The join codes: \<^verbatim>\<open>get_public_join_code\<close>\<close>

text \<open>\<^verbatim>\<open>AdventOfCode.leaderboards[board]\<close>\<close>

definition board_lookup ::
  "AdventOfCodeLeaderboard list \<Rightarrow> pystr \<Rightarrow> py_exception + AdventOfCodeLeaderboard" where
  "board_lookup boards k =
     (case find (\<lambda>b. board_id b = k) boards of
        None \<Rightarrow> Inl (KeyError k)
      | Some b \<Rightarrow> Inr b)"

text \<open>
  \<^verbatim>\<open>min(counts.items(), key=operator.itemgetter(1))\<close>: the first item with the least
  count, \<^verbatim>\<open>ValueError\<close> on an empty dictionary.
\<close>

definition min_count :: "(pystr \<times> nat) list \<Rightarrow> py_exception + pystr \<times> nat" where
  "min_count counts =
     (case counts of
        [] \<Rightarrow> Inl ValueError
      | x # xs \<Rightarrow> Inr (fold (\<lambda>y best. if snd y < snd best then y else best) xs x))"

text \<open>
  The second half of \<^verbatim>\<open>get_public_join_code\<close>, for a user without a board that has
  room: the forced refresh when no count is cached, then the board with the least count.
\<close>

definition assign_board ::
  "config \<Rightarrow> environment \<Rightarrow> int \<Rightarrow> world \<Rightarrow> (pystr \<times> nat) list \<Rightarrow>
   (py_exception + pystr option) \<times> world" where
  "assign_board cfg env author w1 counts =
     (case (if counts = []
            then (case fetch_leaderboard cfg env True w1 of
                    (Inl x, w2) \<Rightarrow> (Inl x, w2)
                  | (Inr cached, w2) \<Rightarrow> (Inr (leaderboard_counts w2), w2))
            else (Inr counts, w1)) of
        (Inl x, w2) \<Rightarrow> (Inl x, w2)
      | (Inr current_board_counts, w2) \<Rightarrow>
          (case min_count current_board_counts of
             Inl x \<Rightarrow> (Inl x, w2)
           | Inr (best_board, count) \<Rightarrow>
               if dict_get current_board_counts best_board 0 \<ge> 200 then (Inr None, w2)
               else
                 (let w3 = w2\<lparr>assigned_leaderboard :=
                                AList.update author best_board (assigned_leaderboard w2)\<rparr>
                  in case board_lookup (leaderboards w3) best_board of
                       Inl x \<Rightarrow> (Inl x, w3)
                     | Inr b \<Rightarrow> (Inr (Some (join_code b)), w3))))"

definition get_public_join_code ::
  "config \<Rightarrow> environment \<Rightarrow> int \<Rightarrow> world \<Rightarrow> (py_exception + pystr option) \<times> world" where
  "get_public_join_code cfg env author w =
     (case fetch_leaderboard cfg env False w of
        (Inl x, w1) \<Rightarrow> (Inl x, w1)
      | (Inr cached, w1) \<Rightarrow>
          (let previously_assigned_board = map_of (assigned_leaderboard w1) author;
               current_board_counts =
                 AList.delete (aoc_staff_leaderboard_id cfg) (leaderboard_counts w1)
           in if previously_assigned_board \<noteq> None \<and> previously_assigned_board \<noteq> Some [] \<and>
                 dict_get current_board_counts (the previously_assigned_board) 0 < 200
              then (case board_lookup (leaderboards w1) (the previously_assigned_board) of
                      Inl x \<Rightarrow> (Inl x, w1)
                    | Inr b \<Rightarrow> (Inr (Some (join_code b)), w1))
              else assign_board cfg env author w1 current_board_counts))"

text \<open>
  What a request that is not retried ends the fetch of its board with: an
  \<^verbatim>\<open>aiohttp.ClientError\<close> becomes \<^verbatim>\<open>FetchingLeaderboardFailed\<close>, any other exception
  stays what it is, and a decoded body gives its members or the exception of the
  subscript.
\<close>

definition request_result ::
  "py_exception + raw_json \<Rightarrow> py_exception + (pystr \<times> member) list" where
  "request_result r =
     (case r of
        Inl x \<Rightarrow> Inl (if is_client_error x then FetchingLeaderboardFailed else x)
      | Inr raw_data \<Rightarrow> raw_members raw_data)"

text \<open>
  The policy of the fetcher at the \<open>i\<close>-th request of a run, whose requests are \<open>log\<close>
  and which raised \<open>raised\<close> (\<open>None\<close> when it returned): a request that meets a
  redirect with a cookie other than the fallback session is followed by a request of the
  same URL with the fallback session; after any other request that ends with an
  exception, no request follows and the run has raised that exception.
\<close>

definition follows_policy ::
  "config \<Rightarrow> (nat \<Rightarrow> pystr \<Rightarrow> pystr \<Rightarrow> http_outcome) \<Rightarrow> (pystr \<times> pystr) list \<Rightarrow>
   py_exception option \<Rightarrow> nat \<Rightarrow> bool" where
  "follows_policy cfg get log raised i =
     (let url = fst (log ! i); cookie = snd (log ! i);
          r = leaderboard_request url (get i url cookie)
      in if r = Inl UnexpectedRedirect \<and> cookie \<noteq> aoc_fallback_session cfg
         then Suc i < length log \<and> log ! Suc i = (url, aoc_fallback_session cfg)
         else (case request_result r of
                 Inl x \<Rightarrow> Suc i = length log \<and> raised = Some x
               | Inr board_participants \<Rightarrow> True))"

text \<open>The exception a run raised, \<open>None\<close> when it returned.\<close>

definition raised_by :: "py_exception + 'a \<Rightarrow> py_exception option" where
  "raised_by res = (case res of Inl x \<Rightarrow> Some x | Inr v \<Rightarrow> None)"

text \<open>
  A run on one board with the session \<^verbatim>\<open>"s"\<close> and the fallback session \<^verbatim>\<open>"f"\<close>: the
  first request meets a response from another URL with the status 500, every later one
  a response from the requested URL with the status 200 and no members. Four other
  answers of the network follow: every request runs out of time; every request fails
  with an \<^verbatim>\<open>aiohttp.ClientError\<close>; every response has the status 200 and a body that
  is no JSON; every response has the status 200 and the JSON object \<^verbatim>\<open>{}\<close>. A run
  on the example board that stops after its first request leaves the state
  \<open>example_world_failed\<close>.
\<close>

definition example_config :: config where
  "example_config =
     \<lparr>aoc_year = 2020, aoc_fallback_session = ascii ''f'', aoc_staff_leaderboard_id = ascii ''9'',
      aoc_ignored_days = [[]], aoc_leaderboard_displayed_members = 10\<rparr>"

definition example_board :: AdventOfCodeLeaderboard where
  "example_board =
     \<lparr>board_id = ascii ''1'', board_session = ascii ''s'', join_code = ascii ''code-1'',
      use_fallback_session = False\<rparr>"

definition example_world :: world where
  "example_world =
     \<lparr>leaderboards = [example_board], leaderboard_counts = [], leaderboard_cache = [],
      assigned_leaderboard = [], requests = [], refreshes = 0\<rparr>"

definition example_get :: "nat \<Rightarrow> pystr \<Rightarrow> pystr \<Rightarrow> http_outcome" where
  "example_get n url cookie =
     (if n = 0
      then Response (ascii ''https://adventofcode.com/'') 500 (BodyJson (RawObject (Some [])))
      else Response url 200 (BodyJson (RawObject (Some []))))"

definition timeout_get :: "nat \<Rightarrow> pystr \<Rightarrow> pystr \<Rightarrow> http_outcome" where
  "timeout_get n url cookie = RequestRaises TimeoutError"

definition refused_get :: "nat \<Rightarrow> pystr \<Rightarrow> pystr \<Rightarrow> http_outcome" where
  "refused_get n url cookie = RequestRaises ClientError"

definition not_json_get :: "nat \<Rightarrow> pystr \<Rightarrow> pystr \<Rightarrow> http_outcome" where
  "not_json_get n url cookie = Response url 200 (BodyRaises JSONDecodeError)"

definition no_members_get :: "nat \<Rightarrow> pystr \<Rightarrow> pystr \<Rightarrow> http_outcome" where
  "no_members_get n url cookie = Response url 200 (BodyJson (RawObject None))"

definition example_world_failed :: world where
  "example_world_failed =
     \<lparr>leaderboards = [example_board], leaderboard_counts = [], leaderboard_cache = [],
      assigned_leaderboard = [],
      requests = [(ascii ''https://adventofcode.com/2020/leaderboard/private/view/1.json'', ascii ''s'')],
      refreshes = 0\<rparr>"

definition example_world_fetched :: world where
  "example_world_fetched =
     \<lparr>leaderboards = [example_board\<lparr>use_fallback_session := True\<rparr>],
      leaderboard_counts = [(ascii ''1'', 0)], leaderboard_cache = [],
      assigned_leaderboard = [],
      requests = [(ascii ''https://adventofcode.com/2020/leaderboard/private/view/1.json'', ascii ''s''),
                  (ascii ''https://adventofcode.com/2020/leaderboard/private/view/1.json'', ascii ''f'')],
      refreshes = 0\<rparr>"

definition example_url :: pystr where
  "example_url = ascii ''https://adventofcode.com/2020/leaderboard/private/view/1.json''"

text \<open>The leaderboard cache holds every key of \<open>REQUIRED_CACHE_KEYS\<close>.\<close>

definition cache_complete :: "(pystr \<times> cache_value) list \<Rightarrow> bool" where
  "cache_complete cached = (\<not> list_ex (\<lambda>k. k \<notin> fst ` set cached) REQUIRED_CACHE_KEYS)"

text \<open>
  Two states with a leaderboard cache that is complete. In the first, user 7 is assigned
  to board 1, which has 5 participants. In the second there are the staff board 9 and
  the board 1, no user is assigned, and the counts of the boards are missing from their
  cache; Advent of Code then reports no member for the staff board and the 200 members
  \<open>members_200\<close> for board 1, and the paste service answers with a body that is no JSON.
\<close>

definition example_cache :: "(pystr \<times> cache_value) list" where
  "example_cache =
     [(ascii ''full_leaderboard'', CStr []), (ascii ''top_leaderboard'', CStr []),
      (ascii ''full_leaderboard_url'', CStr []), (ascii ''leaderboard_fetched_at'', CStr []),
      (ascii ''number_of_participants'', CInt 0), (ascii ''daily_stats'', CStats [])]"

definition example_world_assigned :: world where
  "example_world_assigned =
     \<lparr>leaderboards = [example_board], leaderboard_counts = [(ascii ''1'', 5)],
      leaderboard_cache = example_cache, assigned_leaderboard = [(7, ascii ''1'')],
      requests = [], refreshes = 1\<rparr>"

definition staff_board :: AdventOfCodeLeaderboard where
  "staff_board =
     \<lparr>board_id = ascii ''9'', board_session = ascii ''s9'', join_code = ascii ''staff-code'',
      use_fallback_session = False\<rparr>"

definition example_world_no_counts :: world where
  "example_world_no_counts =
     \<lparr>leaderboards = [staff_board, example_board], leaderboard_counts = [],
      leaderboard_cache = example_cache, assigned_leaderboard = [],
      requests = [], refreshes = 1\<rparr>"

definition members_200 :: "(pystr \<times> member) list" where
  "members_200 =
     map (\<lambda>i. (str_nat i, \<lparr>m_name = None, m_id = Some (str_nat i), completion_day_level = []\<rparr>))
       [0..<200]"

definition example_env :: environment where
  "example_env =
     \<lparr>http_get = (\<lambda>n url cookie.
                    Response url 200
                      (BodyJson (RawObject (Some (if cookie = ascii ''s'' then members_200 else []))))),
      paste_post = (\<lambda>n content. PasteBodyNotJson),
      utcnow = (\<lambda>n. ascii ''2020-12-01T00:00:00''),
      py_repr = (\<lambda>v. [])\<rparr>"

section \<open>Properties of the aggregator\<close>

subsection \<open>The first pass and the scoring loop\<close>

lemma ascii_1_neq_2: "ascii ''1'' \<noteq> ascii ''2''"
  by (simp add: ascii_def)

lemma with_stars_Nil: "with_stars [] e = e"
  by (simp add: with_stars_def)

lemma with_stars_Cons_1: "with_stars (ascii ''1'' # ks) e = with_stars ks (e\<lparr>star_1 := star_1 e + 1\<rparr>)"
  using ascii_1_neq_2 by (simp add: with_stars_def)

lemma with_stars_Cons_2: "with_stars (ascii ''2'' # ks) e = with_stars ks (e\<lparr>star_2 := star_2 e + 1\<rparr>)"
  using ascii_1_neq_2 by (simp add: with_stars_def)

lemma with_stars_append: "with_stars (xs @ ys) e = with_stars ys (with_stars xs e)"
  by (simp add: with_stars_def)

lemma record_star_update:
  "record_star mid star (AList.update mid e lb) =
     (case add_star star e of Inl x \<Rightarrow> Inl x | Inr e' \<Rightarrow> Inr (AList.update mid e' lb))"
  by (simp add: record_star_def update_conv' split: sum.splits)

lemma stars_loop_valid:
  "list_all valid_star (map fst stars) \<Longrightarrow>
   stars_loop mid day stars (AList.update mid e lb, sr) =
     Inr (AList.update mid (with_stars (map fst stars) e) lb,
          group_results (map (\<lambda>(star, ts). ((day, star), \<lparr>member_id = mid, completion_time = ts\<rparr>)) stars) sr)"
proof (induction stars arbitrary: e sr)
  case Nil
  then show ?case by (simp add: with_stars_Nil group_results_def)
next
  case (Cons p stars)
  obtain star ts where p: "p = (star, ts)" by (cases p)
  from Cons.prems p have "valid_star star" and rest: "list_all valid_star (map fst stars)"
    by simp_all
  then consider "star = ascii ''1''" | "star = ascii ''2''"
    by (auto simp: valid_star_def)
  then show ?case
  proof cases
    case 1
    then show ?thesis
      using Cons.IH [OF rest] p
      by (simp add: record_star_update add_star_def with_stars_Cons_1 group_results_def)
  next
    case 2
    then show ?thesis
      using Cons.IH [OF rest] p ascii_1_neq_2
      by (simp add: record_star_update add_star_def with_stars_Cons_2 group_results_def)
  qed
qed

lemma stars_loop_Inr_valid:
  "stars_loop mid day stars (AList.update mid e lb, sr) = Inr st \<Longrightarrow>
   list_all valid_star (map fst stars)"
proof (induction stars arbitrary: e sr)
  case Nil
  then show ?case by simp
next
  case (Cons p stars)
  obtain star ts where p: "p = (star, ts)" by (cases p)
  show ?case
  proof (cases "add_star star e")
    case (Inl x)
    with Cons.prems p show ?thesis by (simp add: record_star_update)
  next
    case (Inr e')
    then have "valid_star star"
      by (auto simp: add_star_def valid_star_def split: if_splits)
    moreover from Cons.prems p Inr have "list_all valid_star (map fst stars)"
      using Cons.IH by (simp add: record_star_update)
    ultimately show ?thesis using p by simp
  qed
qed

lemma group_results_append:
  "group_results (xs @ ys) sr = group_results ys (group_results xs sr)"
  by (simp add: group_results_def)

lemma days_loop_valid:
  "list_all valid_star (star_keys cdl) \<Longrightarrow>
   days_loop mid cdl (AList.update mid e lb, sr) =
     Inr (AList.update mid (with_stars (star_keys cdl) e) lb,
          group_results (member_completions mid cdl) sr)"
proof (induction cdl arbitrary: e sr)
  case Nil
  then show ?case
    by (simp add: star_keys_def member_completions_def with_stars_Nil group_results_def)
next
  case (Cons p cdl)
  obtain day stars where p: "p = (day, stars)" by (cases p)
  from Cons.prems p have here: "list_all valid_star (map fst stars)"
    and rest: "list_all valid_star (star_keys cdl)"
    by (simp_all add: star_keys_def)
  show ?case
    using Cons.IH [OF rest] p
    by (simp add: stars_loop_valid [OF here] star_keys_def member_completions_def
        with_stars_append group_results_append)
qed

lemma days_loop_Inr_valid:
  "days_loop mid cdl (AList.update mid e lb, sr) = Inr st \<Longrightarrow>
   list_all valid_star (star_keys cdl)"
proof (induction cdl arbitrary: e sr)
  case Nil
  then show ?case by (simp add: star_keys_def)
next
  case (Cons p cdl)
  obtain day stars where p: "p = (day, stars)" by (cases p)
  from Cons.prems p obtain st' where
    first: "stars_loop mid day stars (AList.update mid e lb, sr) = Inr st'"
    and then_rest: "days_loop mid cdl st' = Inr st"
    by (auto split: sum.splits)
  have here: "list_all valid_star (map fst stars)"
    using first by (rule stars_loop_Inr_valid)
  from first have "st' = (AList.update mid (with_stars (map fst stars) e) lb,
      group_results (map (\<lambda>(star, ts). ((day, star), \<lparr>member_id = mid, completion_time = ts\<rparr>)) stars) sr)"
    by (simp add: stars_loop_valid [OF here])
  with then_rest have "list_all valid_star (star_keys cdl)"
    using Cons.IH by simp
  with here p show ?case by (simp add: star_keys_def)
qed

lemma display_name_Inr: "m_id m = Some mid \<Longrightarrow> display_name m = Inr (name_of m)"
  by (simp add: display_name_def name_of_def)

lemma members_loop_valid:
  "list_all valid_member ms \<Longrightarrow>
   members_loop ms (lb, sr) = Inr (entries_of ms lb, group_results (completions ms) sr)"
proof (induction ms arbitrary: lb sr)
  case Nil
  then show ?case by (simp add: entries_of_def completions_def group_results_def)
next
  case (Cons m ms)
  from Cons.prems have m: "valid_member m" and rest: "list_all valid_member ms"
    by simp_all
  from m obtain mid where mid: "m_id m = Some mid"
    and stars: "list_all valid_star (star_keys (completion_day_level m))"
    unfolding valid_member_def by auto
  show ?case
    using Cons.IH [OF rest] mid
    by (simp add: display_name_Inr [OF mid] days_loop_valid [OF stars] entries_of_def
        entry_of_def completions_def group_results_append)
qed

lemma members_loop_Inr_valid:
  "members_loop ms (lb, sr) = Inr st \<Longrightarrow> list_all valid_member ms"
proof (induction ms arbitrary: lb sr)
  case Nil
  then show ?case by simp
next
  case (Cons m ms)
  from Cons.prems obtain mid where mid: "m_id m = Some mid"
    by (cases "m_id m") (auto split: sum.splits)
  from Cons.prems mid obtain st' where
    first: "days_loop mid (completion_day_level m)
              (AList.update mid \<lparr>entry_name = name_of m, score = 0, star_1 = 0, star_2 = 0\<rparr> lb, sr) = Inr st'"
    and then_rest: "members_loop ms st' = Inr st"
    by (auto simp: display_name_Inr [OF mid] split: sum.splits)
  have stars: "list_all valid_star (star_keys (completion_day_level m))"
    using first by (rule days_loop_Inr_valid)
  obtain lb' sr' where "st' = (lb', sr')" by (cases st')
  with then_rest have rest: "list_all valid_member ms"
    using Cons.IH by simp
  from mid stars have "valid_member m" by (simp add: valid_member_def)
  with rest show ?case by simp
qed

lemma members_loop_Inr:
  assumes "members_loop ms (lb, sr) = Inr st"
  shows "st = (entries_of ms lb, group_results (completions ms) sr)"
  using assms members_loop_valid [OF members_loop_Inr_valid [OF assms], of lb sr] by simp

lemma map_fst_with_awards: "map fst (with_awards awards lb) = map fst lb"
  by (simp add: with_awards_def case_prod_beta)

lemma with_awards_Nil: "with_awards [] lb = lb"
  by (simp add: with_awards_def awarded_def)

lemma with_awards_append: "with_awards ys (with_awards xs lb) = with_awards (xs @ ys) lb"
  by (simp add: with_awards_def awarded_def case_prod_beta)

lemma add_score_present:
  "distinct (map fst lb) \<Longrightarrow> mid \<in> fst ` set lb \<Longrightarrow>
   add_score mid points lb = Inr (with_awards [(mid, points)] lb)"
proof (induction lb)
  case Nil
  then show ?case by simp
next
  case (Cons p lb)
  obtain k e where p: "p = (k, e)" by (cases p)
  show ?case
  proof (cases "k = mid")
    case True
    with Cons.prems p have "mid \<notin> fst ` set lb" by auto
    then have "with_awards [(mid, points)] lb = lb"
      by (induction lb) (auto simp: with_awards_def awarded_def)
    with True p show ?thesis
      by (simp add: add_score_def with_awards_def awarded_def)
  next
    case False
    with Cons.prems p have "distinct (map fst lb)" and "mid \<in> fst ` set lb" by auto
    from Cons.IH [OF this] False p show ?thesis
      by (auto simp: add_score_def with_awards_def awarded_def split: option.splits)
  qed
qed

lemma add_score_absent: "mid \<notin> fst ` set lb \<Longrightarrow> add_score mid points lb = Inl (KeyError mid)"
proof -
  assume "mid \<notin> fst ` set lb"
  then have "map_of lb mid = None" by (simp add: map_of_eq_None_iff)
  then show ?thesis by (simp add: add_score_def)
qed

lemma award_loop_present:
  "distinct (map fst lb) \<Longrightarrow> fst ` set awards \<subseteq> fst ` set lb \<Longrightarrow>
   award_loop awards lb = Inr (with_awards awards lb)"
proof (induction awards arbitrary: lb)
  case Nil
  then show ?case by (simp add: with_awards_Nil)
next
  case (Cons a awards)
  obtain mid points where a: "a = (mid, points)" by (cases a)
  let ?lb = "with_awards [(mid, points)] lb"
  from Cons.prems a have step: "add_score mid points lb = Inr ?lb"
    by (intro add_score_present) auto
  have "distinct (map fst ?lb)" and "fst ` set awards \<subseteq> fst ` set ?lb"
    using Cons.prems by (simp_all add: map_fst_with_awards flip: set_map)
  from Cons.IH [OF this] step a show ?case
    by (simp add: with_awards_append)
qed

lemma award_loop_append:
  "award_loop (xs @ ys) lb =
     (case award_loop xs lb of Inl x \<Rightarrow> Inl x | Inr lb' \<Rightarrow> award_loop ys lb')"
  by (induction xs arbitrary: lb) (auto split: sum.splits)

lemma score_loop_eq:
  "score_loop ignored_days max_score sr lb = award_loop (all_awards ignored_days max_score sr) lb"
proof (induction sr arbitrary: lb)
  case Nil
  then show ?case by (simp add: all_awards_def)
next
  case (Cons g sr)
  obtain day star results where g: "g = ((day, star), results)" by (cases g) auto
  show ?case
    using Cons.IH g
    by (simp add: all_awards_def award_loop_append split: sum.splits)
qed

lemma update_fresh: "k \<notin> fst ` set al \<Longrightarrow> AList.update k v al = al @ [(k, v)]"
  by (induction al) auto

lemma dict_of_items_distinct:
  assumes "distinct (map fst items)"
  shows "dict_of_items items = items"
proof -
  have "distinct (map fst (acc @ xs)) \<Longrightarrow>
        fold (\<lambda>(k, v) d. AList.update k v d) xs acc = acc @ xs" for acc xs :: "('a \<times> 'b) list"
  proof (induction xs arbitrary: acc)
    case Nil
    then show ?case by simp
  next
    case (Cons p xs)
    obtain k v where p: "p = (k, v)" by (cases p)
    from Cons.prems p have fresh: "k \<notin> fst ` set acc" by auto
    from Cons.prems p have "distinct (map fst ((acc @ [(k, v)]) @ xs))" by simp
    from Cons.IH [OF this] p fresh show ?case by (simp add: update_fresh)
  qed
  from this [of "[]" items] assms show ?thesis by (simp add: dict_of_items_def)
qed

lemma set_sorted_reverse: "set (sorted_reverse key xs) = set xs"
  by (simp add: sorted_reverse_def)

lemma length_sorted_reverse: "length (sorted_reverse key xs) = length xs"
  by (simp add: sorted_reverse_def)

lemma distinct_sorted_reverse: "distinct (sorted_reverse key xs) = distinct xs"
  by (simp add: sorted_reverse_def)

lemma distinct_keys_sorted_reverse:
  "distinct (map fst xs) \<Longrightarrow> distinct (map fst (sorted_reverse key xs))"
  by (simp add: distinct_map set_sorted_reverse distinct_sorted_reverse)

lemma distinct_entries_of:
  "distinct (map fst lb) \<Longrightarrow> distinct (map fst (entries_of ms lb))"
  unfolding entries_of_def
  by (induction ms arbitrary: lb) (simp_all add: distinct_update)

lemma keys_entries_of:
  "fst ` set (entries_of ms lb) = fst ` set lb \<union> (\<lambda>m. the (m_id m)) ` set ms"
  unfolding entries_of_def
  by (induction ms arbitrary: lb) (auto simp: dom_update)

lemma entries_of_distinct_ids:
  "distinct (map (\<lambda>m. the (m_id m)) ms) \<Longrightarrow>
   (\<lambda>m. the (m_id m)) ` set ms \<inter> fst ` set lb = {} \<Longrightarrow>
   entries_of ms lb = lb @ map (\<lambda>m. (the (m_id m), entry_of m)) ms"
proof (induction ms arbitrary: lb)
  case Nil
  then show ?case by (simp add: entries_of_def)
next
  case (Cons m ms)
  from Cons.prems have fresh: "the (m_id m) \<notin> fst ` set lb" by auto
  have "entries_of (m # ms) lb = entries_of ms (lb @ [(the (m_id m), entry_of m)])"
    by (simp add: entries_of_def update_fresh [OF fresh])
  also have "\<dots> = (lb @ [(the (m_id m), entry_of m)]) @ map (\<lambda>m. (the (m_id m), entry_of m)) ms"
    using Cons.prems by (intro Cons.IH) auto
  finally show ?case by simp
qed

lemma keys_append_result: "fst ` set (append_result k r sr) = insert k (fst ` set sr)"
  by (simp add: append_result_def dom_map_default)

lemma distinct_append_result:
  "distinct (map fst sr) \<Longrightarrow> distinct (map fst (append_result k r sr))"
  by (simp add: append_result_def distinct_map_default)

lemma dict_get_append_result:
  "dict_get (append_result k r sr) k' [] =
     (if k' = k then dict_get sr k [] @ [r] else dict_get sr k' [])"
  by (simp add: dict_get_def append_result_def map_of_map_default split: option.splits)

lemma group_results_Nil: "group_results [] sr = sr"
  by (simp add: group_results_def)

lemma group_results_Cons:
  "group_results (p # flat) sr = group_results flat (append_result (fst p) (snd p) sr)"
  by (simp add: group_results_def case_prod_beta)

lemma keys_group_results:
  "fst ` set (group_results flat sr) = fst ` set sr \<union> fst ` set flat"
  by (induction flat arbitrary: sr)
     (simp_all add: group_results_Nil group_results_Cons keys_append_result)

lemma distinct_group_results:
  "distinct (map fst sr) \<Longrightarrow> distinct (map fst (group_results flat sr))"
  by (induction flat arbitrary: sr)
     (simp_all add: group_results_Nil group_results_Cons distinct_append_result)

lemma dict_get_group_results:
  "dict_get (group_results flat sr) k [] =
     dict_get sr k [] @ map snd (filter (\<lambda>p. fst p = k) flat)"
  by (induction flat arbitrary: sr)
     (simp_all add: group_results_Nil group_results_Cons dict_get_append_result)

lemma group_results_member:
  assumes "(k, rs) \<in> set (group_results flat [])"
  shows "rs = map snd (filter (\<lambda>p. fst p = k) flat)"
proof -
  have "distinct (map fst (group_results flat []))"
    by (rule distinct_group_results) simp
  with assms have "map_of (group_results flat []) k = Some rs" by simp
  then have "dict_get (group_results flat []) k [] = rs" by (simp add: dict_get_def)
  moreover have "dict_get (group_results flat []) k [] = map snd (filter (\<lambda>p. fst p = k) flat)"
    by (subst dict_get_group_results) (simp add: dict_get_def)
  ultimately show ?thesis by simp
qed

lemma filter_map_default:
  "filter (\<lambda>g. P (fst g)) (AList.map_default k v f sr) =
     (if P k then AList.map_default k v f (filter (\<lambda>g. P (fst g)) sr)
      else filter (\<lambda>g. P (fst g)) sr)"
  by (induction sr) auto

lemma filter_group_results:
  "filter (\<lambda>g. P (fst g)) (group_results flat sr) =
     group_results (filter (\<lambda>p. P (fst p)) flat) (filter (\<lambda>g. P (fst g)) sr)"
  by (induction flat arbitrary: sr)
     (simp_all add: group_results_Nil group_results_Cons append_result_def filter_map_default)

lemma map_fst_star_awards:
  "map fst (star_awards max_score results) = map member_id (sort_key completion_time results)"
proof -
  let ?sorted = "sort_key completion_time results"
  have "map fst (star_awards max_score results) =
          map (member_id \<circ> snd) (enumerate 0 ?sorted)"
    unfolding star_awards_def by (simp add: case_prod_beta comp_def)
  also have "\<dots> = map member_id (map snd (enumerate 0 ?sorted))"
    by (simp only: map_map)
  also have "\<dots> = map member_id ?sorted"
    by (simp only: map_snd_enumerate)
  finally show ?thesis .
qed

lemma keys_star_awards: "fst ` set (star_awards max_score results) = member_id ` set results"
proof -
  have "fst ` set (star_awards max_score results) = set (map fst (star_awards max_score results))"
    by simp
  then show ?thesis unfolding map_fst_star_awards by simp
qed

lemma all_awards_Nil: "all_awards ignored_days max_score [] = []"
  by (simp add: all_awards_def)

lemma all_awards_Cons:
  "all_awards ignored_days max_score (g # sr) =
     (if fst (fst g) \<in> set ignored_days then [] else star_awards max_score (snd g)) @
     all_awards ignored_days max_score sr"
  by (simp add: all_awards_def case_prod_beta)

lemma keys_all_awards:
  "fst ` set (all_awards ignored_days max_score sr) \<subseteq> member_id ` (\<Union>g\<in>set sr. set (snd g))"
proof (induction sr)
  case Nil
  then show ?case by (simp add: all_awards_Nil)
next
  case (Cons g sr)
  have "fst ` set (all_awards ignored_days max_score (g # sr)) \<subseteq>
          member_id ` set (snd g) \<union> fst ` set (all_awards ignored_days max_score sr)"
    by (simp add: all_awards_Cons image_Un keys_star_awards le_supI1)
  also have "\<dots> \<subseteq> member_id ` set (snd g) \<union> member_id ` (\<Union>g\<in>set sr. set (snd g))"
    using Cons.IH by (rule Un_mono [OF subset_refl])
  finally show ?case by (simp add: image_Un)
qed

lemma member_id_member_completions:
  "member_id ` snd ` set (member_completions mid cdl) \<subseteq> {mid}"
  by (auto simp: member_completions_def)

lemma member_id_completions:
  "member_id ` snd ` set (completions ms) \<subseteq> (\<lambda>m. the (m_id m)) ` set ms"
  using member_id_member_completions by (fastforce simp: completions_def)

lemma group_results_results:
  assumes "g \<in> set (group_results flat [])"
  shows "set (snd g) \<subseteq> snd ` set flat"
proof -
  obtain k rs where g: "g = (k, rs)" by (cases g)
  with assms have "rs = map snd (filter (\<lambda>p. fst p = k) flat)"
    by (simp add: group_results_member)
  with g show ?thesis by auto
qed

lemma distinct_first_pass: "distinct (map fst (first_pass_leaderboard raw))"
  unfolding first_pass_leaderboard_def by (rule distinct_entries_of) simp

lemma awards_keys_first_pass:
  "fst ` set (all_awards ignored_days max_score (star_results_of raw))
     \<subseteq> fst ` set (first_pass_leaderboard raw)"
proof -
  have "(\<Union>g\<in>set (star_results_of raw). set (snd g)) \<subseteq> snd ` set (completions (map snd raw))"
    unfolding star_results_of_def using group_results_results by blast
  then have "member_id ` (\<Union>g\<in>set (star_results_of raw). set (snd g))
      \<subseteq> member_id ` snd ` set (completions (map snd raw))"
    by (rule image_mono)
  also have "\<dots> \<subseteq> (\<lambda>m. the (m_id m)) ` set (map snd raw)"
    by (rule member_id_completions)
  also have "\<dots> \<subseteq> fst ` set (first_pass_leaderboard raw)"
    by (simp add: first_pass_leaderboard_def keys_entries_of)
  finally show ?thesis
    using keys_all_awards [of ignored_days max_score "star_results_of raw"] by (rule order_trans [rotated])
qed

lemma score_loop_first_pass:
  "score_loop ignored_days (int (length (first_pass_leaderboard raw))) (star_results_of raw)
     (first_pass_leaderboard raw) = Inr (scored_leaderboard ignored_days raw)"
  unfolding score_loop_eq scored_leaderboard_def
  by (rule award_loop_present [OF distinct_first_pass awards_keys_first_pass])

lemma distinct_scored: "distinct (map fst (scored_leaderboard ignored_days raw))"
  by (simp add: scored_leaderboard_def map_fst_with_awards distinct_first_pass)

lemma parse_valid:
  assumes "list_all valid_member (map snd raw)"
  shows "parse_raw_leaderboard_data ignored_days raw =
           Inr \<lparr>daily_stats = daily_stats_of (star_results_of raw),
                leaderboard = sorted_reverse leaderboard_sorting_function
                                (scored_leaderboard ignored_days raw)\<rparr>"
proof -
  have "members_loop (map snd raw) ([], []) =
          Inr (first_pass_leaderboard raw, star_results_of raw)"
    unfolding first_pass_leaderboard_def star_results_of_def
    by (rule members_loop_valid [OF assms])
  moreover have "dict_of_items (sorted_reverse leaderboard_sorting_function
                    (scored_leaderboard ignored_days raw)) =
                 sorted_reverse leaderboard_sorting_function (scored_leaderboard ignored_days raw)"
    by (intro dict_of_items_distinct distinct_keys_sorted_reverse distinct_scored)
  ultimately show ?thesis
    by (simp add: parse_raw_leaderboard_data_def score_loop_first_pass)
qed

lemma parse_Inr_valid:
  assumes "parse_raw_leaderboard_data ignored_days raw = Inr res"
  shows "list_all valid_member (map snd raw)"
proof -
  from assms obtain st where "members_loop (map snd raw) ([], []) = Inr st"
    by (auto simp: parse_raw_leaderboard_data_def split: sum.splits)
  then show ?thesis by (rule members_loop_Inr_valid)
qed

lemma parse_Inr:
  assumes "parse_raw_leaderboard_data ignored_days raw = Inr res"
  shows "res = \<lparr>daily_stats = daily_stats_of (star_results_of raw),
                leaderboard = sorted_reverse leaderboard_sorting_function
                                (scored_leaderboard ignored_days raw)\<rparr>"
  using assms parse_valid [OF parse_Inr_valid [OF assms], of ignored_days] by simp

lemma sorted_reverse_nth:
  assumes "i < j" and "j < length xs"
  shows "key (sorted_reverse key xs ! j) \<le> key (sorted_reverse key xs ! i)"
proof -
  let ?zs = "sort_key key (rev xs)"
  have "sorted (map key ?zs)" by (rule sorted_sort_key)
  then have "sorted_wrt (\<lambda>a b. key a \<le> key b) ?zs" by (simp add: sorted_map)
  then have "sorted_wrt (\<lambda>a b. key b \<le> key a) (rev ?zs)" by (simp add: sorted_wrt_rev)
  moreover note assms(1)
  moreover have "j < length (rev ?zs)" using assms by simp
  ultimately have "key (rev ?zs ! j) \<le> key (rev ?zs ! i)"
    by (rule sorted_wrt_nth_less)
  then show ?thesis by (simp add: sorted_reverse_def)
qed

lemma example_parse: "parse_raw_leaderboard_data [] example_raw_with_ids = Inr example_parsed"
  by code_simp

subsection \<open>The example of the specification\<close>

text \<open>
  C8, as amended: on the example input in which every member record also carries its
  \<^verbatim>\<open>"id"\<close> (\<^verbatim>\<open>"1"\<close> and \<^verbatim>\<open>"2"\<close>), and with day \<^verbatim>\<open>"1"\<close> not on the ignored list, the
  aggregator returns the leaderboard in the order 1, 2, where participant 1 has score 2
  and participant 2 has score 1.
\<close>

theorem example_with_ids_leaderboard:
  assumes "ascii ''1'' \<notin> set ignored_days"
  shows "map_sum id leaderboard (parse_raw_leaderboard_data ignored_days example_raw_with_ids) =
           Inr [(ascii ''1'', \<lparr>entry_name = ascii ''A'', score = 2, star_1 = 1, star_2 = 0\<rparr>),
                (ascii ''2'', \<lparr>entry_name = ascii ''B'', score = 1, star_1 = 1, star_2 = 0\<rparr>)]"
  using assms
  by (simp add: parse_raw_leaderboard_data_def example_raw_with_ids_def example_raw_def
      display_name_def ascii_def record_star_def add_star_def append_result_def
      star_awards_def add_score_def dict_of_items_def sorted_reverse_def
      leaderboard_sorting_function_def)

text \<open>The instance with the ignored list of the default configuration, \<^verbatim>\<open>[""]\<close>.\<close>

theorem example_with_ids_leaderboard_witness:
  "map_sum id leaderboard (parse_raw_leaderboard_data [[]] example_raw_with_ids) =
     Inr [(ascii ''1'', \<lparr>entry_name = ascii ''A'', score = 2, star_1 = 1, star_2 = 0\<rparr>),
          (ascii ''2'', \<lparr>entry_name = ascii ''B'', score = 1, star_1 = 1, star_2 = 0\<rparr>)]"
  using example_with_ids_leaderboard [of "[[]]"] by (simp add: ascii_def)

text \<open>
  On the example exactly as the specification writes it, the records have no key
  \<^verbatim>\<open>"id"\<close> and \<^verbatim>\<open>member['id']\<close> raises \<^verbatim>\<open>KeyError\<close>: no leaderboard is returned.
\<close>

theorem example_without_ids_raises:
  "parse_raw_leaderboard_data [] example_raw = Inl (KeyError (ascii ''id''))"
  by (simp add: parse_raw_leaderboard_data_def example_raw_def display_name_def ascii_def)

subsection \<open>The order of the leaderboard\<close>

text \<open>
  C2: whenever the aggregator returns a leaderboard, every entry and its successor in
  the list are in order: the earlier one has the higher score, or the same score and at
  least as many stars (\<^verbatim>\<open>star_1 + star_2\<close>).
\<close>

theorem leaderboard_ordered:
  assumes "parse_raw_leaderboard_data ignored_days raw = Inr res"
    and "Suc i < length (leaderboard res)"
  shows "ranks_before (snd (leaderboard res ! i)) (snd (leaderboard res ! Suc i))"
proof -
  let ?lb = "sorted_reverse leaderboard_sorting_function (scored_leaderboard ignored_days raw)"
  from parse_Inr [OF assms(1)] have lb: "leaderboard res = ?lb" by simp
  with assms(2) have "Suc i < length (scored_leaderboard ignored_days raw)"
    by (simp add: length_sorted_reverse)
  with sorted_reverse_nth [of i "Suc i" "scored_leaderboard ignored_days raw" leaderboard_sorting_function]
  have "leaderboard_sorting_function (?lb ! Suc i) \<le> leaderboard_sorting_function (?lb ! i)"
    by simp
  then show ?thesis
    unfolding lb by (auto simp: leaderboard_sorting_function_def ranks_before_def Let_def)
qed

text \<open>The instance on the example: its two entries are in order.\<close>

theorem leaderboard_ordered_witness:
  "parse_raw_leaderboard_data [] example_raw_with_ids = Inr example_parsed \<and>
   Suc 0 < length (leaderboard example_parsed) \<and>
   ranks_before (snd (leaderboard example_parsed ! 0)) (snd (leaderboard example_parsed ! Suc 0))"
proof -
  have len: "Suc 0 < length (leaderboard example_parsed)"
    by (simp add: example_parsed_def)
  from example_parse len leaderboard_ordered [OF example_parse len] show ?thesis by simp
qed

subsection \<open>The rank scores of one star\<close>

lemma sum_ranks: "sum_list (map (\<lambda>rank. M - int rank) [0..<n]) = int n * M - int (n * (n - 1) div 2)"
proof (induction n)
  case 0
  then show ?case by simp
next
  case (Suc n)
  have "n * (n - 1) div 2 + n = Suc n * n div 2"
    by (cases n) (simp_all add: algebra_simps)
  then have "int (Suc n * (Suc n - 1) div 2) = int (n * (n - 1) div 2) + int n"
    by (simp add: mult.commute)
  with Suc show ?case by (simp add: algebra_simps)
qed

lemma map_snd_star_awards:
  "map snd (star_awards max_score results) =
     map (\<lambda>rank. max_score - int rank) [0..<length results]"
proof -
  let ?sorted = "sort_key completion_time results"
  have "map snd (star_awards max_score results) =
          map ((\<lambda>rank. max_score - int rank) \<circ> fst) (enumerate 0 ?sorted)"
    unfolding star_awards_def by (simp add: case_prod_beta comp_def)
  also have "\<dots> = map (\<lambda>rank. max_score - int rank) (map fst (enumerate 0 ?sorted))"
    by (simp only: map_map)
  also have "\<dots> = map (\<lambda>rank. max_score - int rank) [0..<length results]"
    by (simp only: map_fst_enumerate) simp
  finally show ?thesis .
qed

lemma sum_star_awards:
  "sum_list (map snd (star_awards max_score results)) =
     int (length results) * max_score - int (length results * (length results - 1) div 2)"
  by (simp only: map_snd_star_awards sum_ranks)

lemma length_filter_key:
  "distinct (map fst al) \<Longrightarrow>
   length (filter (\<lambda>p. fst p = k) al) = (if map_of al k = None then 0 else 1)"
proof (induction al)
  case Nil
  then show ?case by simp
next
  case (Cons p al)
  show ?case
  proof (cases "fst p = k")
    case True
    with Cons.prems have "k \<notin> fst ` set al" by auto
    then have "filter (\<lambda>p. fst p = k) al = []" by (auto simp: filter_empty_conv)
    with True show ?thesis by (cases p) simp
  next
    case False
    with Cons show ?thesis by (cases p) simp
  qed
qed

lemma member_completions_Nil: "member_completions mid [] = []"
  by (simp add: member_completions_def)

lemma member_completions_Cons:
  "member_completions mid (d # cdl) =
     map (\<lambda>(star, ts). ((fst d, star), \<lparr>member_id = mid, completion_time = ts\<rparr>)) (snd d) @
     member_completions mid cdl"
  by (simp add: member_completions_def case_prod_beta)

lemma filter_day_completions:
  "filter (\<lambda>p. fst p = (day, star))
     (map (\<lambda>(s, ts). ((d, s), \<lparr>member_id = mid, completion_time = ts\<rparr>)) stars) =
   (if d = day
    then map (\<lambda>(s, ts). ((d, s), \<lparr>member_id = mid, completion_time = ts\<rparr>))
           (filter (\<lambda>p. fst p = star) stars)
    else [])"
  by (induction stars) auto

lemma member_completions_other_days:
  "day \<notin> fst ` set cdl \<Longrightarrow>
   filter (\<lambda>p. fst p = (day, star)) (member_completions mid cdl) = []"
proof (induction cdl)
  case Nil
  then show ?case by (simp add: member_completions_Nil)
next
  case (Cons d cdl)
  then show ?case
    by (auto simp: member_completions_Cons filter_day_completions)
qed

lemma length_member_completions:
  assumes "distinct (map fst cdl)"
    and "list_all (\<lambda>d. distinct (map fst (snd d))) cdl"
  shows "length (filter (\<lambda>p. fst p = (day, star)) (member_completions mid cdl)) =
           (case map_of cdl day of
              None \<Rightarrow> 0
            | Some stars \<Rightarrow> if map_of stars star = None then 0 else 1)"
  using assms
proof (induction cdl)
  case Nil
  then show ?case by (simp add: member_completions_Nil)
next
  case (Cons d cdl)
  obtain d' stars where d: "d = (d', stars)" by (cases d)
  show ?case
  proof (cases "d' = day")
    case True
    with Cons.prems d have "day \<notin> fst ` set cdl" by auto
    then have "filter (\<lambda>p. fst p = (day, star)) (member_completions mid cdl) = []"
      by (rule member_completions_other_days)
    moreover from Cons.prems d have "distinct (map fst stars)" by simp
    ultimately show ?thesis
      using True d
      by (simp add: member_completions_Cons filter_day_completions length_filter_key)
  next
    case False
    with Cons d show ?thesis
      by (simp add: member_completions_Cons filter_day_completions)
  qed
qed

lemma length_member_completions_has_star:
  "wf_member m \<Longrightarrow>
   length (filter (\<lambda>p. fst p = (day, star)) (member_completions mid (completion_day_level m))) =
     (if has_star m day star then 1 else 0)"
  by (simp add: wf_member_def length_member_completions has_star_def split: option.splits)

lemma length_completions:
  "list_all wf_member ms \<Longrightarrow>
   length (filter (\<lambda>p. fst p = (day, star)) (completions ms)) =
     length (filter (\<lambda>m. has_star m day star) ms)"
proof (induction ms)
  case Nil
  then show ?case by (simp add: completions_def)
next
  case (Cons m ms)
  then have "wf_member m" and "list_all wf_member ms" by simp_all
  with Cons.IH show ?case
    by (simp add: completions_def length_member_completions_has_star)
qed

lemma distinct_the_ids:
  assumes "distinct (map m_id ms)" and "list_all valid_member ms"
  shows "distinct (map (\<lambda>m. the (m_id m)) ms)"
proof -
  have "inj_on the (m_id ` set ms)"
  proof (rule inj_onI)
    fix x y assume x: "x \<in> m_id ` set ms" and y: "y \<in> m_id ` set ms"
      and eq: "the x = the y"
    have "\<forall>m\<in>set ms. m_id m \<noteq> None"
      using assms(2) by (auto simp: list_all_iff valid_member_def)
    with x y have "x \<noteq> None" and "y \<noteq> None" by auto
    with eq show "x = y" by auto
  qed
  with assms(1) have "distinct (map the (map m_id ms))"
    by (subst distinct_map) simp
  then show ?thesis by (simp add: comp_def)
qed

lemma length_first_pass:
  assumes "distinct (map (\<lambda>p. m_id (snd p)) raw)" and "list_all valid_member (map snd raw)"
  shows "length (first_pass_leaderboard raw) = length raw"
proof -
  from assms(1) have "distinct (map m_id (map snd raw))" by (simp add: comp_def)
  then have "distinct (map (\<lambda>m. the (m_id m)) (map snd raw))"
    using assms(2) by (rule distinct_the_ids)
  then have "entries_of (map snd raw) [] =
      [] @ map (\<lambda>m. (the (m_id m), entry_of m)) (map snd raw)"
    by (rule entries_of_distinct_ids) simp
  then show ?thesis by (simp add: first_pass_leaderboard_def)
qed

lemma star_results_group_length:
  assumes "list_all (\<lambda>p. wf_member (snd p)) raw"
    and "((day, star), results) \<in> set (star_results_of raw)"
  shows "length results = participants_with raw day star"
proof -
  from assms(2) have "results = map snd (filter (\<lambda>p. fst p = (day, star)) (completions (map snd raw)))"
    unfolding star_results_of_def by (rule group_results_member)
  moreover from assms(1) have "list_all wf_member (map snd raw)"
    by (simp add: list_all_iff)
  ultimately show ?thesis
    by (simp add: length_completions participants_with_def)
qed

text \<open>
  C1, as amended: for well-formed raw data on which the first pass succeeds, and every
  group (day, star) of \<^verbatim>\<open>star_results\<close> whose day is not ignored, the scoring loop
  awards the rank scores \<open>star_awards\<close> of the group, and these sum to
  \<open>N * M - N * (N - 1) div 2\<close>, where \<open>N\<close> is the number of participants with a record
  for that star and \<open>M\<close> the number of participants on the leaderboard. Tied completion
  times do not change the sum.
\<close>

theorem star_awards_sum:
  assumes "wf_raw raw"
    and "members_loop (map snd raw) ([], []) = Inr (lb, sr)"
    and "((day, star), results) \<in> set sr"
    and "day \<notin> set ignored_days"
  shows "score_loop ignored_days (int (length lb)) [((day, star), results)] lb =
           award_loop (star_awards (int (length lb)) results) lb \<and>
         length lb = length raw \<and>
         length results = participants_with raw day star \<and>
         sum_list (map snd (star_awards (int (length lb)) results)) =
           int (participants_with raw day star) * int (length raw) -
           int (participants_with raw day star * (participants_with raw day star - 1) div 2)"
proof -
  from assms(2) have valid: "list_all valid_member (map snd raw)"
    by (rule members_loop_Inr_valid)
  from members_loop_Inr [OF assms(2)]
  have lb: "lb = first_pass_leaderboard raw" and sr: "sr = star_results_of raw"
    by (simp_all add: first_pass_leaderboard_def star_results_of_def)
  from assms(1) have len: "length lb = length raw"
    unfolding lb wf_raw_def by (intro length_first_pass valid) simp
  from assms(1,3) have n: "length results = participants_with raw day star"
    unfolding sr wf_raw_def by (intro star_results_group_length) simp_all
  have "score_loop ignored_days (int (length lb)) [((day, star), results)] lb =
          award_loop (star_awards (int (length lb)) results) lb"
    using assms(4) by (simp split: sum.splits)
  with len n show ?thesis
    by (simp add: sum_star_awards)
qed

lemma example_members_loop:
  "members_loop (map snd example_raw_with_ids) ([], []) =
     Inr (example_first_pass, [((ascii ''1'', ascii ''1''), example_results)])"
  by (simp add: example_raw_with_ids_def example_raw_def display_name_def ascii_def
      record_star_def add_star_def append_result_def example_first_pass_def example_results_def)

lemma example_wf_raw: "wf_raw example_raw_with_ids"
  by (simp add: wf_raw_def wf_member_def example_raw_with_ids_def example_raw_def ascii_def)

lemma example_participants_with:
  "participants_with example_raw_with_ids (ascii ''1'') (ascii ''1'') = 2"
  by (simp add: participants_with_def has_star_def example_raw_with_ids_def example_raw_def ascii_def)

lemma example_star_awards:
  "star_awards 2 example_results = [(ascii ''1'', 2), (ascii ''2'', 1)]"
  by (simp add: star_awards_def example_results_def)

text \<open>The instance on the example: two participants, both with star 1 of day 1.\<close>

theorem star_awards_sum_witness:
  "wf_raw example_raw_with_ids \<and>
   members_loop (map snd example_raw_with_ids) ([], []) =
     Inr (example_first_pass, [((ascii ''1'', ascii ''1''), example_results)]) \<and>
   ascii ''1'' \<notin> set [[]] \<and>
   length example_first_pass = length example_raw_with_ids \<and>
   length example_results = participants_with example_raw_with_ids (ascii ''1'') (ascii ''1'') \<and>
   sum_list (map snd (star_awards 2 example_results)) = 2 * 2 - 1"
proof -
  have ign: "ascii ''1'' \<notin> set [[]]" by (simp add: ascii_def)
  have here: "((ascii ''1'', ascii ''1''), example_results)
      \<in> set [((ascii ''1'', ascii ''1''), example_results)]" by simp
  have two: "length example_first_pass = 2" by (simp add: example_first_pass_def)
  from star_awards_sum [OF example_wf_raw example_members_loop here ign]
  show ?thesis
    using example_wf_raw example_members_loop ign
    by (simp add: two example_participants_with)
qed

text \<open>
  On the example the two completion times differ and day 1 is not ignored; the awards
  for star 1 of day 1 are 2 and 1, whose sum 3 is not \<open>N * (N - 1) div 2 = 1\<close>.
\<close>

theorem star_awards_sum_not_triangular:
  "members_loop (map snd example_raw_with_ids) ([], []) =
     Inr (example_first_pass, [((ascii ''1'', ascii ''1''), example_results)]) \<and>
   distinct (map completion_time example_results) \<and>
   participants_with example_raw_with_ids (ascii ''1'') (ascii ''1'') = 2 \<and>
   star_awards (int (length example_first_pass)) example_results =
     [(ascii ''1'', 2), (ascii ''2'', 1)] \<and>
   sum_list (map snd (star_awards (int (length example_first_pass)) example_results)) \<noteq>
     2 * (2 - 1) div 2"
proof -
  have two: "int (length example_first_pass) = 2" by (simp add: example_first_pass_def)
  have "distinct (map completion_time example_results)" by (simp add: example_results_def)
  then show ?thesis
    by (simp add: example_members_loop example_participants_with two example_star_awards)
qed

subsection \<open>Scores, stars and daily statistics of the result\<close>

lemma map_of_sorted_reverse:
  assumes "distinct (map fst xs)"
  shows "map_of (sorted_reverse key xs) = map_of xs"
proof -
  have "distinct (map fst (sorted_reverse key xs))"
    using assms by (rule distinct_keys_sorted_reverse)
  then show ?thesis
    using assms by (simp add: map_of_inject_set set_sorted_reverse)
qed

lemma map_of_with_awards:
  "map_of (with_awards awards lb) k =
     map_option (\<lambda>e. e\<lparr>score := score e + awarded awards k\<rparr>) (map_of lb k)"
  by (induction lb) (auto simp: with_awards_def)

lemma set_update_subset: "set (AList.update k v al) \<subseteq> insert (k, v) (set al)"
  by (induction al) auto

lemma entries_of_Nil: "entries_of [] lb = lb"
  by (simp add: entries_of_def)

lemma entries_of_Cons:
  "entries_of (m # ms) lb = entries_of ms (AList.update (the (m_id m)) (entry_of m) lb)"
  by (simp add: entries_of_def)

lemma entries_of_entries:
  "(k, e) \<in> set (entries_of ms lb) \<Longrightarrow> (k, e) \<in> set lb \<or> e \<in> entry_of ` set ms"
proof (induction ms arbitrary: lb)
  case Nil
  then show ?case by (simp add: entries_of_Nil)
next
  case (Cons m ms)
  from Cons.prems have "(k, e) \<in> set (AList.update (the (m_id m)) (entry_of m) lb) \<or>
      e \<in> entry_of ` set ms"
    unfolding entries_of_Cons by (rule Cons.IH)
  then show ?case using set_update_subset [of "the (m_id m)" "entry_of m" lb] by auto
qed

lemma score_entry_of: "score (entry_of m) = 0"
  by (simp add: entry_of_def with_stars_def)

lemma first_pass_score:
  assumes "map_of (first_pass_leaderboard raw) k = Some e"
  shows "score e = 0"
proof -
  from assms have "(k, e) \<in> set (first_pass_leaderboard raw)" by (rule map_of_SomeD)
  then have "e \<in> entry_of ` set (map snd raw)"
    unfolding first_pass_leaderboard_def by (auto dest: entries_of_entries)
  then show ?thesis by (auto simp: score_entry_of)
qed

lemma keys_first_pass:
  "fst ` set (first_pass_leaderboard raw) = (\<lambda>p. the (m_id (snd p))) ` set raw"
  by (auto simp: first_pass_leaderboard_def keys_entries_of)

lemma map_of_result:
  assumes "parse_raw_leaderboard_data ignored_days raw = Inr res"
  shows "map_of (leaderboard res) k =
           map_option
             (\<lambda>e. e\<lparr>score := score e +
                      awarded (all_awards ignored_days (int (length (first_pass_leaderboard raw)))
                                 (star_results_of raw)) k\<rparr>)
             (map_of (first_pass_leaderboard raw) k)"
proof -
  from parse_Inr [OF assms] have "leaderboard res =
      sorted_reverse leaderboard_sorting_function (scored_leaderboard ignored_days raw)"
    by simp
  then have "map_of (leaderboard res) = map_of (scored_leaderboard ignored_days raw)"
    by (simp add: map_of_sorted_reverse distinct_scored)
  then show ?thesis
    by (simp add: scored_leaderboard_def map_of_with_awards)
qed

lemma score_lookup:
  assumes "parse_raw_leaderboard_data ignored_days raw = Inr res"
  shows "map_option score (map_of (leaderboard res) k) =
           (if k \<in> (\<lambda>p. the (m_id (snd p))) ` set raw
            then Some (awarded (all_awards ignored_days (int (length (first_pass_leaderboard raw)))
                                  (star_results_of raw)) k)
            else None)"
proof (cases "map_of (first_pass_leaderboard raw) k")
  case None
  then have "k \<notin> fst ` set (first_pass_leaderboard raw)"
    by (simp add: map_of_eq_None_iff)
  with None show ?thesis
    by (simp add: map_of_result [OF assms] keys_first_pass)
next
  case (Some e)
  then have "k \<in> fst ` set (first_pass_leaderboard raw)"
    by (metis map_of_eq_None_iff option.distinct(1))
  with Some first_pass_score [OF Some] show ?thesis
    by (simp add: map_of_result [OF assms] keys_first_pass)
qed

lemma length_first_pass_card:
  "length (first_pass_leaderboard raw) = card ((\<lambda>p. the (m_id (snd p))) ` set raw)"
proof -
  have "length (map fst (first_pass_leaderboard raw)) =
          card (set (map fst (first_pass_leaderboard raw)))"
    using distinct_first_pass [of raw] by (simp only: distinct_card)
  then show ?thesis by (simp add: keys_first_pass)
qed

lemma ids_drop_ignored:
  "(\<lambda>p. the (m_id (snd p))) ` set (drop_ignored ignored_days raw) =
   (\<lambda>p. the (m_id (snd p))) ` set raw"
  by (simp add: drop_ignored_def drop_ignored_days_def image_image)

lemma all_awards_filter:
  "all_awards ignored_days max_score (filter (\<lambda>g. fst (fst g) \<notin> set ignored_days) sr) =
   all_awards ignored_days max_score sr"
  by (induction sr) (simp_all add: all_awards_Nil all_awards_Cons)

lemma filter_day_ignored:
  "filter (\<lambda>p. fst (fst p) \<notin> set ignored_days)
     (map (\<lambda>(star, ts). ((day, star), \<lparr>member_id = mid, completion_time = ts\<rparr>)) stars) =
   (if day \<notin> set ignored_days
    then map (\<lambda>(star, ts). ((day, star), \<lparr>member_id = mid, completion_time = ts\<rparr>)) stars
    else [])"
  by (induction stars) auto

lemma member_completions_filter:
  "member_completions mid (filter (\<lambda>d. fst d \<notin> set ignored_days) cdl) =
   filter (\<lambda>p. fst (fst p) \<notin> set ignored_days) (member_completions mid cdl)"
proof (induction cdl)
  case Nil
  then show ?case by (simp add: member_completions_Nil)
next
  case (Cons d cdl)
  have "filter (\<lambda>p. fst (fst p) \<notin> set ignored_days)
          (map (\<lambda>(star, ts). ((fst d, star), \<lparr>member_id = mid, completion_time = ts\<rparr>)) (snd d)) =
        (if fst d \<notin> set ignored_days
         then map (\<lambda>(star, ts). ((fst d, star), \<lparr>member_id = mid, completion_time = ts\<rparr>)) (snd d)
         else [])"
    by (rule filter_day_ignored)
  with Cons.IH show ?case by (simp add: member_completions_Cons)
qed

lemma completions_drop_ignored:
  "completions (map snd (drop_ignored ignored_days raw)) =
   filter (\<lambda>p. fst (fst p) \<notin> set ignored_days) (completions (map snd raw))"
  by (induction raw)
     (simp_all add: completions_def drop_ignored_def drop_ignored_days_def
        member_completions_filter)

lemma star_results_drop_ignored:
  "star_results_of (drop_ignored ignored_days raw) =
   filter (\<lambda>g. fst (fst g) \<notin> set ignored_days) (star_results_of raw)"
  unfolding star_results_of_def completions_drop_ignored
  by (simp add: filter_group_results [where P = "\<lambda>k. fst k \<notin> set ignored_days"])

lemma all_awards_drop_ignored:
  "all_awards ignored_days max_score (star_results_of (drop_ignored ignored_days raw)) =
   all_awards ignored_days max_score (star_results_of raw)"
  by (simp only: star_results_drop_ignored all_awards_filter)

lemma score_lookup_drop_ignored:
  assumes "parse_raw_leaderboard_data ignored_days raw = Inr res"
  shows "map_option score (map_of (leaderboard res) k) =
           (if k \<in> (\<lambda>p. the (m_id (snd p))) ` set (drop_ignored ignored_days raw)
            then Some (awarded
                         (all_awards ignored_days
                            (int (card ((\<lambda>p. the (m_id (snd p))) ` set (drop_ignored ignored_days raw))))
                            (star_results_of (drop_ignored ignored_days raw))) k)
            else None)"
  by (simp only: score_lookup [OF assms] length_first_pass_card ids_drop_ignored
      all_awards_drop_ignored)

lemma star_keys_filter:
  "set (star_keys (filter P cdl)) \<subseteq> set (star_keys cdl)"
  by (auto simp: star_keys_def)

lemma valid_member_drop_ignored:
  assumes "valid_member m"
  shows "valid_member (drop_ignored_days ignored_days m)"
proof -
  from assms have "\<forall>s\<in>set (star_keys (completion_day_level m)). valid_star s"
    by (simp add: valid_member_def list_all_iff)
  with star_keys_filter have
    "\<forall>s\<in>set (star_keys (filter (\<lambda>d. fst d \<notin> set ignored_days) (completion_day_level m))). valid_star s"
    by blast
  with assms show ?thesis
    by (simp add: valid_member_def drop_ignored_days_def list_all_iff)
qed

lemma valid_drop_ignored:
  "list_all valid_member (map snd raw) \<Longrightarrow>
   list_all valid_member (map snd (drop_ignored ignored_days raw))"
  by (induction raw) (simp_all add: drop_ignored_def valid_member_drop_ignored)

lemma drop_ignored_idem:
  "drop_ignored ignored_days (drop_ignored ignored_days raw) = drop_ignored ignored_days raw"
  by (induction raw) (simp_all add: drop_ignored_def drop_ignored_days_def)

text \<open>
  C3: completions on ignored days contribute nothing to any score. When the aggregator
  returns on two inputs that agree once the completions on ignored days are removed
  (so they differ at most in the presence and the timestamps of such completions), every
  participant has the same score in both results; and it also returns on the input
  without those completions, with the same scores again.
\<close>

theorem ignored_days_no_score:
  assumes "drop_ignored ignored_days raw1 = drop_ignored ignored_days raw2"
    and "parse_raw_leaderboard_data ignored_days raw1 = Inr res1"
    and "parse_raw_leaderboard_data ignored_days raw2 = Inr res2"
  shows "map_option score (map_of (leaderboard res1) k) =
           map_option score (map_of (leaderboard res2) k) \<and>
         (\<exists>res0. parse_raw_leaderboard_data ignored_days (drop_ignored ignored_days raw1) = Inr res0 \<and>
            map_option score (map_of (leaderboard res0) k) =
              map_option score (map_of (leaderboard res1) k))"
proof -
  have same: "map_option score (map_of (leaderboard res1) k) =
      map_option score (map_of (leaderboard res2) k)"
    by (simp only: score_lookup_drop_ignored [OF assms(2)] score_lookup_drop_ignored [OF assms(3)]
        assms(1))
  let ?raw0 = "drop_ignored ignored_days raw1"
  have "list_all valid_member (map snd ?raw0)"
    using parse_Inr_valid [OF assms(2)] by (rule valid_drop_ignored)
  from parse_valid [OF this, of ignored_days] obtain res0 where
    res0: "parse_raw_leaderboard_data ignored_days ?raw0 = Inr res0" by blast
  have "map_option score (map_of (leaderboard res0) k) =
      map_option score (map_of (leaderboard res1) k)"
    by (simp only: score_lookup_drop_ignored [OF assms(2)] score_lookup_drop_ignored [OF res0]
        drop_ignored_idem)
  with same res0 show ?thesis by blast
qed

lemma example_day2_parse:
  "parse_raw_leaderboard_data [ascii ''2''] example_raw_day2 = Inr example_parsed_day2"
  by code_simp

lemma example_parse_ignoring_day2:
  "parse_raw_leaderboard_data [ascii ''2''] example_raw_with_ids = Inr example_parsed"
  by code_simp

lemma example_day2_drop:
  "drop_ignored [ascii ''2''] example_raw_day2 = drop_ignored [ascii ''2''] example_raw_with_ids"
  by (simp add: drop_ignored_def drop_ignored_days_def example_raw_day2_def
      example_raw_with_ids_def example_raw_def ascii_def)

text \<open>
  The instance on the second example, against the first: member 1 has score 2 with
  and without the completion on the ignored day 2.
\<close>

theorem ignored_days_no_score_witness:
  "drop_ignored [ascii ''2''] example_raw_day2 = drop_ignored [ascii ''2''] example_raw_with_ids \<and>
   parse_raw_leaderboard_data [ascii ''2''] example_raw_day2 = Inr example_parsed_day2 \<and>
   parse_raw_leaderboard_data [ascii ''2''] example_raw_with_ids = Inr example_parsed \<and>
   map_option score (map_of (leaderboard example_parsed_day2) (ascii ''1'')) = Some 2 \<and>
   map_option score (map_of (leaderboard example_parsed) (ascii ''1'')) = Some 2"
proof -
  have "map_option score (map_of (leaderboard example_parsed) (ascii ''1'')) = Some 2"
    by (simp add: example_parsed_def ascii_def)
  with ignored_days_no_score [OF example_day2_drop example_day2_parse example_parse_ignoring_day2,
      of "ascii ''1''"]
  show ?thesis
    using example_day2_drop example_day2_parse example_parse_ignoring_day2 by simp
qed

subsection \<open>Stars and daily statistics\<close>

lemma str_nat_days: "map str_nat [1..<26] = day_keys"
  by code_simp

lemma distinct_day_keys: "distinct day_keys"
  by code_simp

lemma fold_update_fresh:
  "distinct (map f ds) \<Longrightarrow> f ` set ds \<inter> fst ` set acc = {} \<Longrightarrow>
   fold (\<lambda>d stats. AList.update (f d) (g d) stats) ds acc = acc @ map (\<lambda>d. (f d, g d)) ds"
proof (induction ds arbitrary: acc)
  case Nil
  then show ?case by simp
next
  case (Cons d ds)
  from Cons.prems have fresh: "f d \<notin> fst ` set acc" by auto
  have "fold (\<lambda>d stats. AList.update (f d) (g d) stats) ds (acc @ [(f d, g d)]) =
      (acc @ [(f d, g d)]) @ map (\<lambda>d. (f d, g d)) ds"
    using Cons.prems by (intro Cons.IH) auto
  then show ?case by (simp add: update_fresh [OF fresh])
qed

lemma daily_stats_of_eq:
  "daily_stats_of sr =
     map (\<lambda>d. (str_nat d,
               \<lparr>star_one = length (dict_get sr (str_nat d, ascii ''1'') []),
                star_two = length (dict_get sr (str_nat d, ascii ''2'') [])\<rparr>))
       [1..<26]"
proof -
  have "distinct (map str_nat [1..<26])"
    by (simp only: str_nat_days distinct_day_keys)
  from fold_update_fresh [OF this, of "[]"] show ?thesis
    by (simp add: daily_stats_of_def Let_def)
qed

lemma length_star_results:
  assumes "list_all (\<lambda>p. wf_member (snd p)) raw"
  shows "length (dict_get (star_results_of raw) (day, star) []) = participants_with raw day star"
proof -
  from assms have "list_all wf_member (map snd raw)" by (simp add: list_all_iff)
  then show ?thesis
    unfolding star_results_of_def dict_get_group_results
    by (simp add: dict_get_def length_completions participants_with_def)
qed

lemma first_pass_distinct_ids:
  assumes "distinct (map (\<lambda>p. m_id (snd p)) raw)" and "list_all valid_member (map snd raw)"
  shows "first_pass_leaderboard raw = map (\<lambda>p. (the (m_id (snd p)), entry_of (snd p))) raw"
    and "distinct (map (\<lambda>p. the (m_id (snd p))) raw)"
proof -
  from assms(1) have "distinct (map m_id (map snd raw))" by (simp add: comp_def)
  then have d: "distinct (map (\<lambda>m. the (m_id m)) (map snd raw))"
    using assms(2) by (rule distinct_the_ids)
  then show "distinct (map (\<lambda>p. the (m_id (snd p))) raw)" by (simp add: comp_def)
  from d have "entries_of (map snd raw) [] =
      [] @ map (\<lambda>m. (the (m_id m), entry_of m)) (map snd raw)"
    by (rule entries_of_distinct_ids) simp
  then show "first_pass_leaderboard raw = map (\<lambda>p. (the (m_id (snd p)), entry_of (snd p))) raw"
    by (simp add: first_pass_leaderboard_def comp_def)
qed

lemma map_of_map_distinct:
  "distinct (map f xs) \<Longrightarrow> x \<in> set xs \<Longrightarrow> map_of (map (\<lambda>x. (f x, g x)) xs) (f x) = Some (g x)"
  by (induction xs) (auto simp: image_iff)

lemma stars_entry_of:
  "star_1 (entry_of m) = completed m (ascii ''1'')"
  "star_2 (entry_of m) = completed m (ascii ''2'')"
  by (simp_all add: entry_of_def with_stars_def completed_def)

text \<open>
  C10: for well-formed raw data on which the aggregator returns, the daily statistics
  have exactly the keys \<^verbatim>\<open>"1"\<close> to \<^verbatim>\<open>"25"\<close>, in this order, and give for every day,
  ignored or not, the number of participants with star 1 and with star 2 of that day
  (zero when there is none). The entry of every member counts in \<^verbatim>\<open>star_1\<close> and
  \<^verbatim>\<open>star_2\<close> all its completions, on ignored days too; only its score, the sum of the
  rank scores \<open>all_awards\<close> awards to it, leaves the ignored days out.
\<close>

theorem stars_and_daily_stats:
  assumes "wf_raw raw"
    and "parse_raw_leaderboard_data ignored_days raw = Inr res"
  shows "map fst (daily_stats res) = day_keys \<and>
         daily_stats res =
           map (\<lambda>d. (str_nat d,
                     \<lparr>star_one = participants_with raw (str_nat d) (ascii ''1''),
                      star_two = participants_with raw (str_nat d) (ascii ''2'')\<rparr>))
             [1..<26] \<and>
         (\<forall>p\<in>set raw. \<exists>e.
            map_of (leaderboard res) (the (m_id (snd p))) = Some e \<and>
            star_1 e = completed (snd p) (ascii ''1'') \<and>
            star_2 e = completed (snd p) (ascii ''2'') \<and>
            score e =
              awarded (all_awards ignored_days (int (length raw)) (star_results_of raw))
                (the (m_id (snd p))))"
proof -
  from assms(1) have wf: "list_all (\<lambda>p. wf_member (snd p)) raw"
    and ids: "distinct (map (\<lambda>p. m_id (snd p)) raw)"
    by (simp_all add: wf_raw_def)
  have valid: "list_all valid_member (map snd raw)"
    using assms(2) by (rule parse_Inr_valid)
  from parse_Inr [OF assms(2)] have "daily_stats res = daily_stats_of (star_results_of raw)"
    by simp
  then have stats: "daily_stats res =
      map (\<lambda>d. (str_nat d,
                \<lparr>star_one = participants_with raw (str_nat d) (ascii ''1''),
                 star_two = participants_with raw (str_nat d) (ascii ''2'')\<rparr>))
        [1..<26]"
    by (simp only: daily_stats_of_eq length_star_results [OF wf])
  then have "map fst (daily_stats res) = map str_nat [1..<26]"
    by (simp add: comp_def)
  then have keys: "map fst (daily_stats res) = day_keys"
    by (simp only: str_nat_days)
  have entries: "\<exists>e. map_of (leaderboard res) (the (m_id (snd p))) = Some e \<and>
            star_1 e = completed (snd p) (ascii ''1'') \<and>
            star_2 e = completed (snd p) (ascii ''2'') \<and>
            score e =
              awarded (all_awards ignored_days (int (length raw)) (star_results_of raw))
                (the (m_id (snd p)))" if p: "p \<in> set raw" for p
  proof -
    have "map_of (first_pass_leaderboard raw) (the (m_id (snd p))) = Some (entry_of (snd p))"
      unfolding first_pass_distinct_ids(1) [OF ids valid]
      using first_pass_distinct_ids(2) [OF ids valid] p by (rule map_of_map_distinct)
    then show ?thesis
      by (simp add: map_of_result [OF assms(2)] length_first_pass [OF ids valid]
          stars_entry_of score_entry_of)
  qed
  from keys stats entries show ?thesis by blast
qed

lemma example_day2_wf: "wf_raw example_raw_day2"
  by (simp add: wf_raw_def wf_member_def example_raw_day2_def ascii_def)

text \<open>
  The instance on the second example, where day 2 is ignored: the statistics of day 2
  count the completion of member 1, whose entry has two first stars and the score 2.
\<close>

theorem stars_and_daily_stats_witness:
  "wf_raw example_raw_day2 \<and>
   parse_raw_leaderboard_data [ascii ''2''] example_raw_day2 = Inr example_parsed_day2 \<and>
   map fst (daily_stats example_parsed_day2) = day_keys \<and>
   map_of (daily_stats example_parsed_day2) (ascii ''2'') = Some \<lparr>star_one = 1, star_two = 0\<rparr> \<and>
   map_of (leaderboard example_parsed_day2) (ascii ''1'') =
     Some \<lparr>entry_name = ascii ''A'', score = 2, star_1 = 2, star_2 = 0\<rparr>"
proof -
  have "map_of (daily_stats example_parsed_day2) (ascii ''2'') = Some \<lparr>star_one = 1, star_two = 0\<rparr>"
    by code_simp
  moreover have "map_of (leaderboard example_parsed_day2) (ascii ''1'') =
      Some \<lparr>entry_name = ascii ''A'', score = 2, star_1 = 2, star_2 = 0\<rparr>"
    by (simp add: example_parsed_day2_def)
  moreover have "map fst (daily_stats example_parsed_day2) = day_keys"
    using stars_and_daily_stats [OF example_day2_wf example_day2_parse] by (rule conjunct1)
  ultimately show ?thesis
    using example_day2_wf example_day2_parse by simp
qed

section \<open>Properties of the formatter\<close>

lemma splitlines_from_char:
  "\<not> is_line_break c \<Longrightarrow> splitlines_from cur (c # cs) = splitlines_from (cur @ [c]) cs"
  by (cases cs) (auto simp: is_line_break_def)

lemma splitlines_from_newline:
  "splitlines_from cur (10 # cs) = cur # splitlines_from [] cs"
  by (cases cs) (auto simp: is_line_break_def)

lemma splitlines_from_line:
  "no_line_break l \<Longrightarrow> splitlines_from cur (l @ rest) = splitlines_from (cur @ l) rest"
  by (induction l arbitrary: cur) (simp_all add: no_line_break_def splitlines_from_char)

lemma splitlines_join:
  "list_all no_line_break ls \<Longrightarrow> (ls \<noteq> [] \<longrightarrow> last ls \<noteq> []) \<Longrightarrow>
   splitlines (join [10] ls) = ls"
proof (induction "[10::nat]" ls rule: join.induct)
  case 1
  then show ?case by (simp add: splitlines_def)
next
  case (2 l)
  then have "splitlines_from [] (l @ []) = splitlines_from ([] @ l) []"
    by (intro splitlines_from_line) simp
  with 2 show ?case by (simp add: splitlines_def)
next
  case (3 l m ls)
  then have l: "no_line_break l" and rest: "list_all no_line_break (m # ls)"
    and "m # ls \<noteq> [] \<longrightarrow> last (m # ls) \<noteq> []"
    by simp_all
  with 3 have IH: "splitlines (join [10] (m # ls)) = m # ls" by blast
  have "splitlines (join [10] (l # m # ls)) = splitlines_from [] (l @ 10 # join [10] (m # ls))"
    by (simp add: splitlines_def)
  also have "\<dots> = splitlines_from ([] @ l) (10 # join [10] (m # ls))"
    using l by (rule splitlines_from_line)
  also have "\<dots> = l # splitlines (join [10] (m # ls))"
    by (simp add: splitlines_from_newline splitlines_def)
  finally show ?case by (simp add: IH)
qed

lemma no_line_break_append [simp]:
  "no_line_break (xs @ ys) = (no_line_break xs \<and> no_line_break ys)"
  by (simp add: no_line_break_def)

lemma no_line_break_replicate_space [simp]: "no_line_break (replicate n 32)"
  by (simp add: no_line_break_def list_all_iff is_line_break_def)

lemma no_line_break_take: "no_line_break s \<Longrightarrow> no_line_break (take n s)"
  by (auto simp: no_line_break_def list_all_iff dest: in_set_takeD)

lemma str_nat_digits: "c \<in> set (str_nat n) \<Longrightarrow> 48 \<le> c \<and> c < 58"
proof (induction n rule: str_nat.induct)
  case (1 n)
  show ?case
  proof (cases "n < 10")
    case True
    with "1.prems" show ?thesis by (simp add: str_nat.simps [of n])
  next
    case False
    with "1.prems" have "c \<in> set (str_nat (n div 10)) \<or> c = 48 + n mod 10"
      by (auto simp: str_nat.simps [of n])
    then show ?thesis
    proof
      assume "c \<in> set (str_nat (n div 10))"
      with False show ?thesis by (rule "1.IH")
    next
      assume "c = 48 + n mod 10"
      then show ?thesis by simp
    qed
  qed
qed

lemma no_line_break_str_nat [simp]: "no_line_break (str_nat n)"
  by (auto simp: no_line_break_def list_all_iff is_line_break_def dest!: str_nat_digits)

lemma no_line_break_str_int [simp]: "no_line_break (str_int i)"
proof -
  have "no_line_break [45]" by (simp add: no_line_break_def is_line_break_def)
  then show ?thesis
    using no_line_break_append [of "[45]"] by (simp add: str_int_def del: no_line_break_append)
qed

lemma no_line_break_rjust [simp]: "no_line_break (rjust w s) = no_line_break s"
  by (simp add: rjust_def)

lemma no_line_break_ljust [simp]: "no_line_break (ljust w s) = no_line_break s"
  by (simp add: ljust_def)

lemma no_line_break_bar [simp]: "no_line_break (ascii '' | '')"
  by (simp add: no_line_break_def ascii_def is_line_break_def)

lemma no_line_break_template:
  "no_line_break rank \<Longrightarrow> no_line_break name \<Longrightarrow> no_line_break score_text \<Longrightarrow>
   no_line_break stars \<Longrightarrow> no_line_break (AOC_TABLE_TEMPLATE rank name score_text stars)"
  by (simp add: AOC_TABLE_TEMPLATE_def no_line_break_take)

lemma template_nonempty: "AOC_TABLE_TEMPLATE rank name score_text stars \<noteq> []"
  by (simp add: AOC_TABLE_TEMPLATE_def ascii_def)

lemma no_line_break_format_row:
  "no_line_break (entry_name (snd (snd r))) \<Longrightarrow> no_line_break (format_row r)"
proof -
  assume name: "no_line_break (entry_name (snd (snd r)))"
  have "no_line_break (ascii ''('')" "no_line_break (ascii '', '')" "no_line_break (ascii '')'')"
    by (simp_all add: no_line_break_def ascii_def is_line_break_def)
  with name show ?thesis
    by (simp add: format_row_def Let_def no_line_break_template)
qed

lemma format_row_nonempty: "format_row r \<noteq> []"
  by (simp add: format_row_def Let_def template_nonempty)

lemma HEADER_join: "HEADER = join [10] [HEADER_row, HEADER_rule]"
  by (simp add: HEADER_def HEADER_rule_def)

lemma no_line_break_HEADER_row: "no_line_break HEADER_row"
proof -
  have "no_line_break []" "no_line_break (ascii ''Name'')" "no_line_break (ascii ''Score'')"
    "no_line_break [11088, 44, 32, 11088, 11088]"
    by (simp_all add: no_line_break_def ascii_def is_line_break_def)
  then show ?thesis unfolding HEADER_row_def by (rule no_line_break_template)
qed

lemma no_line_break_HEADER_rule: "no_line_break HEADER_rule"
  by (simp add: HEADER_rule_def no_line_break_def list_all_iff is_line_break_def)

lemma HEADER_rule_nonempty: "HEADER_rule \<noteq> []"
  by (simp add: HEADER_rule_def)

lemma splitlines_HEADER: "splitlines HEADER = [HEADER_row, HEADER_rule]"
  unfolding HEADER_join
  by (rule splitlines_join)
     (simp_all add: no_line_break_HEADER_row no_line_break_HEADER_rule HEADER_rule_nonempty)

lemma HEADER_LINES_eq: "HEADER_LINES = 2"
  by (simp add: HEADER_LINES_def splitlines_HEADER)

lemma join_HEADER: "join [10] ([HEADER] @ rows) = join [10] (HEADER_row # HEADER_rule # rows)"
  by (cases rows) (simp_all add: HEADER_join)

lemma last_take_nonempty:
  "\<forall>l\<in>set ls. l \<noteq> [] \<Longrightarrow> take n ls \<noteq> [] \<Longrightarrow> last (take n ls) \<noteq> []"
  by (metis in_set_takeD last_in_set)

lemma table_lines:
  assumes "list_all (\<lambda>p. no_line_break (entry_name (snd p))) lb"
  shows "splitlines (format_leaderboard lb) =
           HEADER_row # HEADER_rule # map format_row (enumerate 1 lb)"
    and "list_all no_line_break (HEADER_row # HEADER_rule # map format_row (enumerate 1 lb))"
proof -
  let ?rows = "map format_row (enumerate 1 lb)"
  have "no_line_break (format_row r)" if "r \<in> set (enumerate 1 lb)" for r
  proof -
    from that have "snd r \<in> set lb"
      by (metis in_set_zipE enumerate_eq_zip prod.collapse)
    with assms have "no_line_break (entry_name (snd (snd r)))"
      by (simp add: list_all_iff)
    then show ?thesis by (rule no_line_break_format_row)
  qed
  then show all: "list_all no_line_break (HEADER_row # HEADER_rule # ?rows)"
    by (simp add: list_all_iff no_line_break_HEADER_row no_line_break_HEADER_rule)
  have "last (HEADER_row # HEADER_rule # ?rows) \<noteq> []"
    by (cases "?rows = []") (auto simp: HEADER_rule_nonempty last_map format_row_nonempty)
  with all have "splitlines (join [10] (HEADER_row # HEADER_rule # ?rows)) =
      HEADER_row # HEADER_rule # ?rows"
    by (intro splitlines_join) simp_all
  then show "splitlines (format_leaderboard lb) = HEADER_row # HEADER_rule # ?rows"
    by (simp only: format_leaderboard_def join_HEADER)
qed

text \<open>
  C7, as amended: for every leaderboard whose names hold no character that ends a line,
  the formatted table has the two lines of the header and then one line per entry, and
  the lines of the top view are the first \<open>2 + N\<close> lines of the table (all of them when
  the table has fewer), where \<open>N\<close> is the configured number of displayed members.
\<close>

theorem formatted_table_lines:
  assumes "list_all (\<lambda>p. no_line_break (entry_name (snd p))) lb"
  shows "HEADER_LINES = 2 \<and>
         splitlines (format_leaderboard lb) = splitlines HEADER @ map format_row (enumerate 1 lb) \<and>
         length (splitlines (format_leaderboard lb)) = 2 + length lb \<and>
         splitlines (get_top_leaderboard n (format_leaderboard lb)) =
           take (2 + n) (splitlines (format_leaderboard lb)) \<and>
         length (splitlines (get_top_leaderboard n (format_leaderboard lb))) =
           min (2 + n) (2 + length lb)"
proof -
  let ?lines = "HEADER_row # HEADER_rule # map format_row (enumerate 1 lb)"
  note lines = table_lines [OF assms]
  have len: "length (splitlines (format_leaderboard lb)) = 2 + length lb"
    by (simp add: lines(1))
  from lines(2) have "\<forall>l\<in>set ?lines. no_line_break l"
    by (simp only: list_all_iff)
  then have "\<forall>l\<in>set (take (2 + n) ?lines). no_line_break l"
    by (meson in_set_takeD)
  then have "list_all no_line_break (take (2 + n) ?lines)"
    by (simp only: list_all_iff)
  moreover have "\<forall>l\<in>set ?lines. l \<noteq> []"
    using HEADER_rule_nonempty format_row_nonempty template_nonempty
    by (auto simp: HEADER_row_def)
  then have "take (2 + n) ?lines \<noteq> [] \<longrightarrow> last (take (2 + n) ?lines) \<noteq> []"
    using last_take_nonempty by blast
  ultimately have "splitlines (join [10] (take (2 + n) ?lines)) = take (2 + n) ?lines"
    by (rule splitlines_join)
  then have top: "splitlines (get_top_leaderboard n (format_leaderboard lb)) =
      take (2 + n) (splitlines (format_leaderboard lb))"
    by (simp only: get_top_leaderboard_def TOP_LEADERBOARD_LINES_def HEADER_LINES_eq lines(1))
  have "length (splitlines (get_top_leaderboard n (format_leaderboard lb))) =
      min (2 + n) (2 + length lb)"
    by (simp only: top length_take len min.commute)
  with top len show ?thesis
    by (simp add: HEADER_LINES_eq lines(1) splitlines_HEADER)
qed

lemma no_line_break_Cons: "no_line_break (c # cs) = (\<not> is_line_break c \<and> no_line_break cs)"
  by (simp add: no_line_break_def)

lemma str_nat_0: "str_nat 0 = [48]"
  by (simp add: str_nat.simps)

lemma str_nat_1: "str_nat (Suc 0) = [49]"
  by (simp add: str_nat.simps)

lemma newline_row:
  "format_row (Suc 0, ascii ''1'', \<lparr>entry_name = [65, 10, 66], score = 0, star_1 = 0, star_2 = 0\<rparr>) =
     (replicate 3 32 @ ascii ''1 | A'') @ [10] @
     ([66] @ replicate 22 32 @ ascii '' | '' @ replicate 4 32 @ ascii ''0 | (0, 0)'')"
  by (simp add: format_row_def AOC_TABLE_TEMPLATE_def rjust_def ljust_def str_int_def
      str_nat_0 str_nat_1 ascii_def)

lemma example_newline_lines:
  "splitlines (format_leaderboard example_leaderboard_newline) =
     [HEADER_row, HEADER_rule, replicate 3 32 @ ascii ''1 | A'',
      [66] @ replicate 22 32 @ ascii '' | '' @ replicate 4 32 @ ascii ''0 | (0, 0)'']"
proof -
  let ?a = "replicate 3 32 @ ascii ''1 | A''"
  let ?b = "[66] @ replicate 22 32 @ ascii '' | '' @ replicate 4 32 @ ascii ''0 | (0, 0)''"
  have "format_leaderboard example_leaderboard_newline =
      join [10] [HEADER_row, HEADER_rule, ?a, ?b]"
    by (simp add: format_leaderboard_def example_leaderboard_newline_def newline_row HEADER_join)
  moreover have "no_line_break (ascii ''1 | A'')" "\<not> is_line_break 66"
    "no_line_break (ascii ''0 | (0, 0)'')"
    by (simp_all add: no_line_break_def ascii_def is_line_break_def)
  then have "no_line_break ?a" "no_line_break ?b" "?b \<noteq> []"
    by (simp_all add: no_line_break_Cons)
  then have "splitlines (join [10] [HEADER_row, HEADER_rule, ?a, ?b]) =
      [HEADER_row, HEADER_rule, ?a, ?b]"
    by (intro splitlines_join) (simp_all add: no_line_break_HEADER_row no_line_break_HEADER_rule)
  ultimately show ?thesis by simp
qed

lemma example_names: "list_all (\<lambda>p. no_line_break (entry_name (snd p))) (leaderboard example_parsed)"
  by (simp add: example_parsed_def no_line_break_def ascii_def is_line_break_def)

text \<open>
  The instance on the leaderboard of the example, with one displayed member: the table
  has four lines and the top view three.
\<close>

theorem formatted_table_lines_witness:
  "list_all (\<lambda>p. no_line_break (entry_name (snd p))) (leaderboard example_parsed) \<and>
   length (splitlines (format_leaderboard (leaderboard example_parsed))) = 4 \<and>
   length (splitlines (get_top_leaderboard 1 (format_leaderboard (leaderboard example_parsed)))) = 3"
proof -
  have two: "length (leaderboard example_parsed) = 2" by (simp add: example_parsed_def)
  note lines = formatted_table_lines [OF example_names, of 1]
  from lines have "length (splitlines (format_leaderboard (leaderboard example_parsed))) =
      2 + length (leaderboard example_parsed)" by (elim conjE)
  moreover from lines have
    "length (splitlines (get_top_leaderboard 1 (format_leaderboard (leaderboard example_parsed)))) =
      min (2 + 1) (2 + length (leaderboard example_parsed))" by (elim conjE)
  ultimately show ?thesis using example_names by (simp add: two)
qed

lemma example_newline_parse:
  "map_sum id leaderboard (parse_raw_leaderboard_data [] example_raw_newline) =
     Inr example_leaderboard_newline"
  by (simp add: parse_raw_leaderboard_data_def example_raw_newline_def display_name_def
      dict_of_items_def sorted_reverse_def example_leaderboard_newline_def)

text \<open>
  A member whose name is \<^verbatim>\<open>"A\nB"\<close>: the aggregated leaderboard has one entry, and
  the formatted table four lines, not three.
\<close>

theorem formatted_table_newline_in_name:
  "map_sum id leaderboard (parse_raw_leaderboard_data [] example_raw_newline) =
     Inr example_leaderboard_newline \<and>
   length example_leaderboard_newline = 1 \<and>
   length (splitlines (format_leaderboard example_leaderboard_newline)) = 4 \<and>
   length (splitlines (format_leaderboard example_leaderboard_newline)) \<noteq>
     2 + length example_leaderboard_newline"
proof -
  have "length example_leaderboard_newline = 1" by (simp add: example_leaderboard_newline_def)
  with example_newline_parse show ?thesis by (simp add: example_newline_lines)
qed

section \<open>Properties of the upload\<close>

text \<open>
  What the upload returns for every answer of the paste service: the raw-content URL
  for a JSON object with the key \<^verbatim>\<open>key\<close>, the empty string for a body that is no JSON
  and for an object, a list or a string without \<^verbatim>\<open>key\<close>.
\<close>

lemma upload_not_json: "upload_leaderboard repr PasteBodyNotJson = Inr []"
  by (simp add: upload_leaderboard_def)

lemma upload_object:
  "upload_leaderboard repr (PasteJson (JObj d)) =
     (case map_of d (ascii ''key'') of
        None \<Rightarrow> Inr []
      | Some v \<Rightarrow> Inr (RAW_PASTE_URL_TEMPLATE (format_value repr v)))"
proof (cases "map_of d (ascii ''key'')")
  case None
  then have "ascii ''key'' \<notin> fst ` set d" by (simp add: map_of_eq_None_iff)
  with None show ?thesis by (simp add: upload_leaderboard_def)
next
  case (Some v)
  then have "ascii ''key'' \<in> fst ` set d" by (metis map_of_eq_None_iff option.distinct(1))
  with Some show ?thesis by (simp add: upload_leaderboard_def)
qed

text \<open>
  C9 fails on the code: a response whose JSON body is not an object makes the upload
  raise \<^verbatim>\<open>TypeError\<close>, at \<^verbatim>\<open>"key" in resp_json\<close> for \<^verbatim>\<open>null\<close>, a number or a
  boolean, and at \<^verbatim>\<open>resp_json["key"]\<close> for a string or a list that holds \<^verbatim>\<open>"key"\<close>.
\<close>

theorem upload_raises_on_non_object:
  "upload_leaderboard repr (PasteJson JNull) = Inl TypeError \<and>
   upload_leaderboard repr (PasteJson (JInt 404)) = Inl TypeError \<and>
   upload_leaderboard repr (PasteJson (JBool False)) = Inl TypeError \<and>
   upload_leaderboard repr (PasteJson (JStr (ascii ''no api key''))) = Inl TypeError \<and>
   upload_leaderboard repr (PasteJson (JList [JStr (ascii ''key'')])) = Inl TypeError"
  by (simp add: upload_leaderboard_def ascii_def)

section \<open>Properties of the raw fetcher\<close>

lemma request_result_raises:
  assumes "request_result r = Inl x"
  shows "x = FetchingLeaderboardFailed \<or> \<not> is_client_error x"
proof (cases r)
  case (Inl y)
  with assms show ?thesis
    by (auto simp: request_result_def split: if_splits)
next
  case (Inr raw_data)
  with assms show ?thesis
    by (auto simp: request_result_def raw_members_def is_client_error_def
        split: raw_json.splits option.splits)
qed

lemma fetch_attempts_two:
  "fetch_attempts cfg get url 2 board log =
     (let cookie = session cfg board;
          first = leaderboard_request url (get (length log) url cookie)
      in if first = Inl UnexpectedRedirect \<and> cookie \<noteq> aoc_fallback_session cfg
         then (request_result
                 (leaderboard_request url (get (Suc (length log)) url (aoc_fallback_session cfg))),
               board\<lparr>use_fallback_session := True\<rparr>,
               log @ [(url, cookie), (url, aoc_fallback_session cfg)])
         else (request_result first, board, log @ [(url, cookie)]))"
proof -
  have two: "(2::nat) = Suc (Suc 0)" by simp
  show ?thesis
    unfolding two
    by (auto simp: Let_def session_def request_result_def is_client_error_def split: sum.splits)
qed

lemma fetch_attempts_retry:
  assumes "leaderboard_request url (get (length log) url (session cfg board)) = Inl UnexpectedRedirect"
    and "session cfg board \<noteq> aoc_fallback_session cfg"
  shows "fetch_attempts cfg get url 2 board log =
           (request_result
              (leaderboard_request url (get (Suc (length log)) url (aoc_fallback_session cfg))),
            board\<lparr>use_fallback_session := True\<rparr>,
            log @ [(url, session cfg board), (url, aoc_fallback_session cfg)])"
  unfolding fetch_attempts_two Let_def using assms by simp

lemma fetch_attempts_single:
  assumes "\<not> (leaderboard_request url (get (length log) url (session cfg board)) = Inl UnexpectedRedirect \<and>
              session cfg board \<noteq> aoc_fallback_session cfg)"
  shows "fetch_attempts cfg get url 2 board log =
           (request_result (leaderboard_request url (get (length log) url (session cfg board))),
            board, log @ [(url, session cfg board)])"
  unfolding fetch_attempts_two Let_def using assms by simp

lemma fetch_attempts_raises:
  assumes "fetch_attempts cfg get url 2 board log = (Inl x, board', log')"
  shows "x = FetchingLeaderboardFailed \<or> \<not> is_client_error x"
proof (cases "leaderboard_request url (get (length log) url (session cfg board)) = Inl UnexpectedRedirect \<and>
    session cfg board \<noteq> aoc_fallback_session cfg")
  case True
  then have "fetch_attempts cfg get url 2 board log =
      (request_result
         (leaderboard_request url (get (Suc (length log)) url (aoc_fallback_session cfg))),
       board\<lparr>use_fallback_session := True\<rparr>,
       log @ [(url, session cfg board), (url, aoc_fallback_session cfg)])"
    by (simp add: fetch_attempts_retry)
  with assms have
    "request_result
       (leaderboard_request url (get (Suc (length log)) url (aoc_fallback_session cfg))) = Inl x"
    by simp
  then show ?thesis by (rule request_result_raises)
next
  case False
  then have "fetch_attempts cfg get url 2 board log =
      (request_result (leaderboard_request url (get (length log) url (session cfg board))),
       board, log @ [(url, session cfg board)])"
    by (rule fetch_attempts_single)
  with assms have
    "request_result (leaderboard_request url (get (length log) url (session cfg board))) = Inl x"
    by auto
  then show ?thesis by (rule request_result_raises)
qed

lemma fetch_attempts_log:
  assumes "fetch_attempts cfg get url 2 board log = (r, board', log')"
  shows "\<exists>new. log' = log @ new"
proof (cases "leaderboard_request url (get (length log) url (session cfg board)) = Inl UnexpectedRedirect \<and>
    session cfg board \<noteq> aoc_fallback_session cfg")
  case True
  with assms show ?thesis by (auto simp: fetch_attempts_retry)
next
  case False
  with assms show ?thesis by (auto simp: fetch_attempts_single)
qed

lemma fetch_attempts_policy:
  assumes "fetch_attempts cfg get url 2 board log = (r, board', log')"
    and "length log \<le> i" and "i < length log'"
    and "\<forall>x. r = Inl x \<longrightarrow> ext = [] \<and> raised = Some x"
  shows "follows_policy cfg get (log' @ ext) raised i"
proof (cases "leaderboard_request url (get (length log) url (session cfg board)) = Inl UnexpectedRedirect \<and>
    session cfg board \<noteq> aoc_fallback_session cfg")
  case True
  with assms(1) have log': "log' = log @ [(url, session cfg board), (url, aoc_fallback_session cfg)]"
    and r: "r = request_result
                  (leaderboard_request url (get (Suc (length log)) url (aoc_fallback_session cfg)))"
    by (auto simp: fetch_attempts_retry)
  from assms(2,3) log' consider "i = length log" | "i = Suc (length log)"
    by (auto simp: less_Suc_eq)
  then show ?thesis
  proof cases
    case 1
    with True log' show ?thesis
      by (simp add: follows_policy_def Let_def nth_append)
  next
    case 2
    show ?thesis
    proof (cases r)
      case (Inl x)
      with assms(4) have "ext = []" and "raised = Some x" by simp_all
      moreover from Inl r have
        "request_result
           (leaderboard_request url (get (Suc (length log)) url (aoc_fallback_session cfg))) = Inl x"
        by simp
      ultimately show ?thesis using 2 log'
        by (simp add: follows_policy_def Let_def nth_append)
    next
      case (Inr board_participants)
      with r have
        "request_result
           (leaderboard_request url (get (Suc (length log)) url (aoc_fallback_session cfg))) =
         Inr board_participants"
        by simp
      then show ?thesis using 2 log'
        by (simp add: follows_policy_def Let_def nth_append)
    qed
  qed
next
  case False
  with assms(1) have log': "log' = log @ [(url, session cfg board)]"
    and r: "r = request_result (leaderboard_request url (get (length log) url (session cfg board)))"
    by (auto simp: fetch_attempts_single)
  from assms(2,3) log' have i: "i = length log" by simp
  show ?thesis
  proof (cases r)
    case (Inl x)
    with assms(4) have "ext = []" and "raised = Some x" by simp_all
    moreover from Inl r have
      "request_result (leaderboard_request url (get (length log) url (session cfg board))) = Inl x"
      by simp
    ultimately show ?thesis using i log' False
      by (auto simp: follows_policy_def Let_def nth_append)
  next
    case (Inr board_participants)
    with r have
      "request_result (leaderboard_request url (get (length log) url (session cfg board))) =
       Inr board_participants"
      by simp
    then show ?thesis using i log' False
      by (auto simp: follows_policy_def Let_def nth_append)
  qed
qed

lemma fetch_boards_policy:
  assumes "fetch_boards cfg get fetched todo w participants = (res, w')"
  shows "(\<exists>new. requests w' = requests w @ new) \<and>
         (\<forall>i. length (requests w) \<le> i \<and> i < length (requests w') \<longrightarrow>
              follows_policy cfg get (requests w') (raised_by res) i) \<and>
         (\<forall>x. res = Inl x \<longrightarrow> x = FetchingLeaderboardFailed \<or> \<not> is_client_error x)"
  using assms
proof (induction todo arbitrary: fetched w participants)
  case Nil
  then show ?case by auto
next
  case (Cons board todo)
  let ?url = "AOC_API_URL (aoc_year cfg) (board_id board)"
  obtain r board' log1 where attempts:
    "fetch_attempts cfg get ?url 2 board (requests w) = (r, board', log1)"
    by (cases "fetch_attempts cfg get ?url 2 board (requests w)") auto
  from fetch_attempts_log [OF attempts] obtain new1 where log1: "log1 = requests w @ new1"
    by blast
  show ?case
  proof (cases r)
    case (Inl x)
    with Cons.prems attempts have res: "res = Inl x"
      and w': "w' = w\<lparr>leaderboards := fetched @ board' # todo, requests := log1\<rparr>"
      by simp_all
    from attempts Inl have x: "x = FetchingLeaderboardFailed \<or> \<not> is_client_error x"
      by (auto dest: fetch_attempts_raises)
    have "follows_policy cfg get (requests w') (raised_by res) i"
      if "length (requests w) \<le> i" and "i < length (requests w')" for i
    proof -
      from that w' have "i < length log1" by simp
      with attempts that(1)
      have "follows_policy cfg get (log1 @ []) (Some x) i"
        by (rule fetch_attempts_policy) (simp add: Inl)
      with res w' show ?thesis by (simp add: raised_by_def)
    qed
    with res w' x log1 show ?thesis by simp
  next
    case (Inr board_participants)
    let ?w1 = "w\<lparr>requests := log1,
                  leaderboard_counts :=
                    AList.update (board_id board) (length board_participants) (leaderboard_counts w)\<rparr>"
    from Cons.prems attempts Inr have rec:
      "fetch_boards cfg get (fetched @ [board']) todo ?w1
         (dict_update participants board_participants) = (res, w')"
      by simp
    from Cons.IH [OF rec] obtain new2 where
      ext: "requests w' = log1 @ new2"
      and later: "\<forall>i. length log1 \<le> i \<and> i < length (requests w') \<longrightarrow>
              follows_policy cfg get (requests w') (raised_by res) i"
      and raises: "\<forall>x. res = Inl x \<longrightarrow> x = FetchingLeaderboardFailed \<or> \<not> is_client_error x"
      by auto
    have "follows_policy cfg get (requests w') (raised_by res) i"
      if "length (requests w) \<le> i" and "i < length (requests w')" for i
    proof (cases "i < length log1")
      case True
      with attempts that(1) have "follows_policy cfg get (log1 @ new2) (raised_by res) i"
        by (rule fetch_attempts_policy) (simp add: Inr)
      with ext show ?thesis by simp
    next
      case False
      with later that(2) show ?thesis by simp
    qed
    with ext log1 raises show ?thesis by simp
  qed
qed

lemma example_url_eq:
  "AOC_API_URL (aoc_year example_config) (board_id example_board) = example_url"
  by (simp add: AOC_API_URL_def example_config_def example_board_def example_url_def
      str_int_def str_nat.simps ascii_def)

lemma example_first_response:
  "example_get 0 example_url (ascii ''s'') =
     Response (ascii ''https://adventofcode.com/'') 500 (BodyJson (RawObject (Some [])))"
  by (simp add: example_get_def)

lemma example_first_request:
  "leaderboard_request example_url (example_get 0 example_url (ascii ''s'')) = Inl UnexpectedRedirect"
  by (simp add: leaderboard_request_def example_get_def example_url_def ascii_def)

lemma example_second_request:
  "leaderboard_request example_url (example_get (Suc 0) example_url (ascii ''f'')) =
     Inr (RawObject (Some []))"
  by (simp add: leaderboard_request_def example_get_def)

lemma example_fetch:
  "fetch_leaderboard_data example_config example_get example_world = (Inr [], example_world_fetched)"
proof -
  have "fetch_attempts example_config example_get example_url 2 example_board [] =
      (Inr [], example_board\<lparr>use_fallback_session := True\<rparr>,
       [(example_url, ascii ''s''), (example_url, ascii ''f'')])"
    using example_first_request example_second_request
    by (simp add: fetch_attempts_two Let_def session_def example_board_def example_config_def
        request_result_def raw_members_def ascii_def)
  then show ?thesis
    by (simp add: fetch_leaderboard_data_def example_world_def example_url_eq
        example_world_fetched_def dict_update_def example_url_def)
        (simp add: example_board_def)
qed

lemma example_single_fetch:
  assumes "leaderboard_request example_url (get 0 example_url (ascii ''s'')) = Inl x"
    and "x \<noteq> UnexpectedRedirect"
  shows "fetch_leaderboard_data example_config get example_world =
           (Inl (if is_client_error x then FetchingLeaderboardFailed else x), example_world_failed)"
proof -
  have "fetch_attempts example_config get example_url 2 example_board [] =
      (Inl (if is_client_error x then FetchingLeaderboardFailed else x), example_board,
       [(example_url, ascii ''s'')])"
    using assms
    by (simp add: fetch_attempts_two Let_def session_def example_board_def request_result_def)
  then show ?thesis
    by (simp add: fetch_leaderboard_data_def example_world_def example_url_eq
        example_world_failed_def example_url_def)
qed

lemma example_refused_fetch:
  "fetch_leaderboard_data example_config refused_get example_world =
     (Inl FetchingLeaderboardFailed, example_world_failed)"
  using example_single_fetch [of refused_get ClientError]
  by (simp add: refused_get_def leaderboard_request_def is_client_error_def)

lemma example_timeout_fetch:
  "fetch_leaderboard_data example_config timeout_get example_world =
     (Inl TimeoutError, example_world_failed)"
  using example_single_fetch [of timeout_get TimeoutError]
  by (simp add: timeout_get_def leaderboard_request_def is_client_error_def)

lemma example_not_json_fetch:
  "fetch_leaderboard_data example_config not_json_get example_world =
     (Inl JSONDecodeError, example_world_failed)"
  using example_single_fetch [of not_json_get JSONDecodeError]
  by (simp add: not_json_get_def leaderboard_request_def is_client_error_def)

lemma example_no_members_fetch:
  "fetch_leaderboard_data example_config no_members_get example_world =
     (Inl (KeyError (ascii ''members'')), example_world_failed)"
proof -
  have "fetch_attempts example_config no_members_get example_url 2 example_board [] =
      (Inl (KeyError (ascii ''members'')), example_board, [(example_url, ascii ''s'')])"
    by (simp add: fetch_attempts_two Let_def session_def example_board_def request_result_def
        no_members_get_def leaderboard_request_def raw_members_def)
  then show ?thesis
    by (simp add: fetch_leaderboard_data_def example_world_def example_url_eq
        example_world_failed_def example_url_def)
qed

text \<open>
  C4, as amended: the fetch of one board makes one request with the session of the
  board; when that meets a redirect (the URL of the response is not the requested one,
  whatever its status) and the session is not the fallback session, it makes exactly
  one more, with the fallback session, and none otherwise. What the last request of the
  board met decides the outcome (\<open>request_result\<close>): a redirect on the fallback session,
  a status other than 200 from the requested URL and any other
  \<^verbatim>\<open>aiohttp.ClientError\<close> raise \<^verbatim>\<open>FetchingLeaderboardFailed\<close>; an exception that is no
  \<^verbatim>\<open>aiohttp.ClientError\<close> (\<^verbatim>\<open>asyncio.TimeoutError\<close>, \<^verbatim>\<open>json.JSONDecodeError\<close>) is
  raised as it is; a decoded body gives its members, or the \<^verbatim>\<open>KeyError\<close> or
  \<^verbatim>\<open>TypeError\<close> of the subscript \<^verbatim>\<open>["members"]\<close>. In a run over all boards every
  request follows the policy: after a redirect on a session other than the fallback the
  next request is the retry with the fallback session, and after any other request that
  ends with an exception no request follows and the run raises that exception. So an
  exception of a run is \<^verbatim>\<open>FetchingLeaderboardFailed\<close> or no \<^verbatim>\<open>aiohttp.ClientError\<close>.
\<close>

theorem fetch_follows_policy:
  assumes "fetch_leaderboard_data cfg get w = (res, w')"
  shows "fetch_attempts cfg get url 2 board log =
           (let cookie = session cfg board;
                first = leaderboard_request url (get (length log) url cookie)
            in if first = Inl UnexpectedRedirect \<and> cookie \<noteq> aoc_fallback_session cfg
               then (request_result
                       (leaderboard_request url
                          (get (Suc (length log)) url (aoc_fallback_session cfg))),
                     board\<lparr>use_fallback_session := True\<rparr>,
                     log @ [(url, cookie), (url, aoc_fallback_session cfg)])
               else (request_result first, board, log @ [(url, cookie)])) \<and>
         (\<forall>i. length (requests w) \<le> i \<and> i < length (requests w') \<longrightarrow>
              follows_policy cfg get (requests w') (raised_by res) i) \<and>
         (\<forall>x. res = Inl x \<longrightarrow> x = FetchingLeaderboardFailed \<or> \<not> is_client_error x)"
  using fetch_boards_policy [OF assms [unfolded fetch_leaderboard_data_def]]
    fetch_attempts_two [of cfg get url board log]
  by blast

text \<open>
  The instance on two runs. In the first, the first request meets a redirect on the
  session of the board and is followed by the retry with the fallback session, which
  succeeds. In the second, the only request fails with an \<^verbatim>\<open>aiohttp.ClientError\<close>, and
  the run raises \<^verbatim>\<open>FetchingLeaderboardFailed\<close>.
\<close>

theorem fetch_follows_policy_witness:
  "fetch_leaderboard_data example_config example_get example_world = (Inr [], example_world_fetched) \<and>
   requests example_world_fetched = [(example_url, ascii ''s''), (example_url, ascii ''f'')] \<and>
   follows_policy example_config example_get (requests example_world_fetched) None 0 \<and>
   follows_policy example_config example_get (requests example_world_fetched) None 1 \<and>
   fetch_leaderboard_data example_config refused_get example_world =
     (Inl FetchingLeaderboardFailed, example_world_failed) \<and>
   requests example_world_failed = [(example_url, ascii ''s'')] \<and>
   follows_policy example_config refused_get (requests example_world_failed)
     (Some FetchingLeaderboardFailed) 0"
proof -
  from fetch_follows_policy [OF example_fetch]
  have "\<forall>i. length (requests example_world) \<le> i \<and> i < length (requests example_world_fetched) \<longrightarrow>
      follows_policy example_config example_get (requests example_world_fetched)
        (raised_by (Inr [] :: py_exception + (pystr \<times> member) list)) i"
    by blast
  moreover from fetch_follows_policy [OF example_refused_fetch]
  have "\<forall>i. length (requests example_world) \<le> i \<and> i < length (requests example_world_failed) \<longrightarrow>
      follows_policy example_config refused_get (requests example_world_failed)
        (raised_by (Inl FetchingLeaderboardFailed :: py_exception + (pystr \<times> member) list)) i"
    by blast
  moreover have "requests example_world = []"
    and "requests example_world_fetched = [(example_url, ascii ''s''), (example_url, ascii ''f'')]"
    and "requests example_world_failed = [(example_url, ascii ''s'')]"
    by (simp_all add: example_world_def example_world_fetched_def example_world_failed_def
        example_url_def)
  ultimately show ?thesis
    using example_fetch example_refused_fetch by (simp add: raised_by_def)
qed

text \<open>
  Four runs on the example board. In the first, the first response has the status 500,
  from another URL than the requested one; the run does not stop there: it retries with
  the fallback session and returns the members of the board. In the second, the request
  runs out of time; in the third, the body of the response is no JSON; in the fourth,
  the body is a JSON object without the key \<^verbatim>\<open>"members"\<close>. Each of these three runs
  stops after its first request, and raises the exception it met, which is not
  \<^verbatim>\<open>FetchingLeaderboardFailed\<close>.
\<close>

theorem fetch_retries_bad_status_and_passes_timeout:
  "example_get 0 example_url (ascii ''s'') =
     Response (ascii ''https://adventofcode.com/'') 500 (BodyJson (RawObject (Some []))) \<and>
   fetch_leaderboard_data example_config example_get example_world = (Inr [], example_world_fetched) \<and>
   requests example_world_fetched = [(example_url, ascii ''s''), (example_url, ascii ''f'')] \<and>
   timeout_get 0 example_url (ascii ''s'') = RequestRaises TimeoutError \<and>
   fetch_leaderboard_data example_config timeout_get example_world =
     (Inl TimeoutError, example_world_failed) \<and>
   not_json_get 0 example_url (ascii ''s'') = Response example_url 200 (BodyRaises JSONDecodeError) \<and>
   fetch_leaderboard_data example_config not_json_get example_world =
     (Inl JSONDecodeError, example_world_failed) \<and>
   no_members_get 0 example_url (ascii ''s'') = Response example_url 200 (BodyJson (RawObject None)) \<and>
   fetch_leaderboard_data example_config no_members_get example_world =
     (Inl (KeyError (ascii ''members'')), example_world_failed) \<and>
   requests example_world_failed = [(example_url, ascii ''s'')]"
  using example_first_response example_fetch example_timeout_fetch example_not_json_fetch
    example_no_members_fetch
  by (simp add: example_world_fetched_def example_world_failed_def example_url_def
      timeout_get_def not_json_get_def no_members_get_def)

section \<open>Properties of the cached leaderboard and of the join codes\<close>

lemma fetch_boards_assigned:
  "fetch_boards cfg get fetched todo w participants = (res, w') \<Longrightarrow>
   assigned_leaderboard w' = assigned_leaderboard w"
proof (induction todo arbitrary: fetched w participants)
  case Nil
  then show ?case by auto
next
  case (Cons board todo)
  let ?url = "AOC_API_URL (aoc_year cfg) (board_id board)"
  obtain r board' log1 where attempts:
    "fetch_attempts cfg get ?url 2 board (requests w) = (r, board', log1)"
    by (cases "fetch_attempts cfg get ?url 2 board (requests w)") auto
  show ?case
  proof (cases r)
    case (Inl x)
    with Cons.prems attempts show ?thesis by auto
  next
    case (Inr board_participants)
    with Cons.prems attempts have
      "fetch_boards cfg get (fetched @ [board']) todo
         (w\<lparr>requests := log1,
            leaderboard_counts :=
              AList.update (board_id board) (length board_participants) (leaderboard_counts w)\<rparr>)
         (dict_update participants board_participants) = (res, w')"
      by simp
    from Cons.IH [OF this] show ?thesis by simp
  qed
qed

lemma fetch_leaderboard_data_assigned:
  "fetch_leaderboard_data cfg get w = (res, w') \<Longrightarrow>
   assigned_leaderboard w' = assigned_leaderboard w"
  unfolding fetch_leaderboard_data_def by (rule fetch_boards_assigned)

lemma keys_dict_update: "fst ` set (dict_update d other) = fst ` set d \<union> fst ` set other"
proof (induction other arbitrary: d)
  case Nil
  then show ?case by (simp add: dict_update_def)
next
  case (Cons p other)
  have "fst ` set (dict_update d (p # other)) =
      fst ` set (dict_update (AList.update (fst p) (snd p) d) other)"
    by (simp add: dict_update_def case_prod_beta)
  also have "\<dots> = fst ` set (AList.update (fst p) (snd p) d) \<union> fst ` set other"
    by (rule Cons.IH)
  also have "\<dots> = fst ` set d \<union> fst ` set (p # other)"
    by (auto simp: dom_update)
  finally show ?case .
qed

lemma fetch_leaderboard_cached:
  "cache_complete (leaderboard_cache w) \<Longrightarrow>
   fetch_leaderboard cfg env False w = (Inr (leaderboard_cache w), w)"
  by (simp add: fetch_leaderboard_def cache_complete_def Let_def)

lemma fetch_leaderboard_result:
  assumes "fetch_leaderboard cfg env invalidate_cache w = (Inr cached, w1)"
  shows "cache_complete (leaderboard_cache w1) \<and> assigned_leaderboard w1 = assigned_leaderboard w"
proof (cases "invalidate_cache \<or> list_ex (\<lambda>k. k \<notin> fst ` set (leaderboard_cache w)) REQUIRED_CACHE_KEYS")
  case False
  with assms have "w1 = w" by (simp add: fetch_leaderboard_def Let_def)
  with False show ?thesis by (simp add: cache_complete_def)
next
  case True
  obtain r wf where data: "fetch_leaderboard_data cfg (http_get env) w = (r, wf)"
    by (cases "fetch_leaderboard_data cfg (http_get env) w") auto
  from data have assigned: "assigned_leaderboard wf = assigned_leaderboard w"
    by (rule fetch_leaderboard_data_assigned)
  from assms True data obtain raw where r: "r = Inr raw"
    by (cases r) (auto simp: fetch_leaderboard_def Let_def)
  from assms True data r obtain p where
    p: "parse_raw_leaderboard_data (aoc_ignored_days cfg) raw = Inr p"
    by (cases "parse_raw_leaderboard_data (aoc_ignored_days cfg) raw")
       (auto simp: fetch_leaderboard_def Let_def)
  from assms True data r p obtain url where
    url: "upload_leaderboard (py_repr env)
            (paste_post env (refreshes wf) (format_leaderboard (leaderboard p))) = Inr url"
    by (cases "upload_leaderboard (py_repr env)
            (paste_post env (refreshes wf) (format_leaderboard (leaderboard p)))")
       (auto simp: fetch_leaderboard_def Let_def)
  let ?cached =
    "[(ascii ''full_leaderboard'', CStr (format_leaderboard (leaderboard p))),
      (ascii ''top_leaderboard'',
         CStr (get_top_leaderboard (aoc_leaderboard_displayed_members cfg)
                 (format_leaderboard (leaderboard p)))),
      (ascii ''full_leaderboard_url'', CStr url),
      (ascii ''leaderboard_fetched_at'', CStr (utcnow env (refreshes wf))),
      (ascii ''number_of_participants'', CInt (int (length (leaderboard p)))),
      (ascii ''daily_stats'', CStats (daily_stats p))]"
  from assms True data r p url have w1:
    "w1 = wf\<lparr>refreshes := Suc (refreshes wf),
             leaderboard_cache := dict_update (leaderboard_cache wf) ?cached\<rparr>"
    by (auto simp: fetch_leaderboard_def Let_def)
  have "set REQUIRED_CACHE_KEYS \<subseteq> fst ` set ?cached"
    by (simp add: REQUIRED_CACHE_KEYS_def)
  then have "cache_complete (dict_update (leaderboard_cache wf) ?cached)"
    unfolding cache_complete_def list_ex_iff keys_dict_update by blast
  with w1 assigned show ?thesis by simp
qed

text \<open>
  C6: let the refresh at the start of a call succeed, let the user have a board assigned
  before the call, and let the count of that board, as the call reads it, be below 200.
  Then the call returns the join code of that board and leaves the state as the refresh
  left it, the next call returns the same join code and changes nothing, and the
  assignments are those from before the first call.
\<close>

theorem join_code_sticky:
  assumes "fetch_leaderboard cfg env False w = (Inr cached, w1)"
    and "map_of (assigned_leaderboard w) author = Some b" and "b \<noteq> []"
    and "dict_get (AList.delete (aoc_staff_leaderboard_id cfg) (leaderboard_counts w1)) b 0 < 200"
    and "board_lookup (leaderboards w1) b = Inr board"
  shows "get_public_join_code cfg env author w = (Inr (Some (join_code board)), w1) \<and>
         get_public_join_code cfg env author w1 = (Inr (Some (join_code board)), w1) \<and>
         assigned_leaderboard w1 = assigned_leaderboard w"
proof -
  from fetch_leaderboard_result [OF assms(1)]
  have complete: "cache_complete (leaderboard_cache w1)"
    and assigned: "assigned_leaderboard w1 = assigned_leaderboard w"
    by simp_all
  from assigned assms(2) have prev: "map_of (assigned_leaderboard w1) author = Some b"
    by simp
  have first: "get_public_join_code cfg env author w = (Inr (Some (join_code board)), w1)"
    using assms(1,3,4,5) prev by (simp add: get_public_join_code_def Let_def)
  have "fetch_leaderboard cfg env False w1 = (Inr (leaderboard_cache w1), w1)"
    using complete by (rule fetch_leaderboard_cached)
  then have "get_public_join_code cfg env author w1 = (Inr (Some (join_code board)), w1)"
    using assms(3,4,5) prev by (simp add: get_public_join_code_def Let_def)
  with first assigned show ?thesis by simp
qed

lemma example_cache_complete: "cache_complete example_cache"
  by (simp add: cache_complete_def example_cache_def REQUIRED_CACHE_KEYS_def ascii_def)

lemma example_assigned_fetch:
  "fetch_leaderboard example_config example_env False example_world_assigned =
     (Inr (leaderboard_cache example_world_assigned), example_world_assigned)"
  by (rule fetch_leaderboard_cached) (simp add: example_world_assigned_def example_cache_complete)

text \<open>
  The instance on the first state: user 7 gets the join code of board 1, and the state
  is as before.
\<close>

theorem join_code_sticky_witness:
  "fetch_leaderboard example_config example_env False example_world_assigned =
     (Inr (leaderboard_cache example_world_assigned), example_world_assigned) \<and>
   map_of (assigned_leaderboard example_world_assigned) 7 = Some (ascii ''1'') \<and>
   dict_get (AList.delete (aoc_staff_leaderboard_id example_config)
               (leaderboard_counts example_world_assigned)) (ascii ''1'') 0 = 5 \<and>
   board_lookup (leaderboards example_world_assigned) (ascii ''1'') = Inr example_board \<and>
   get_public_join_code example_config example_env 7 example_world_assigned =
     (Inr (Some (ascii ''code-1'')), example_world_assigned)"
proof -
  have prev: "map_of (assigned_leaderboard example_world_assigned) 7 = Some (ascii ''1'')"
    by (simp add: example_world_assigned_def)
  have nonempty: "ascii ''1'' \<noteq> []" by (simp add: ascii_def)
  have count: "dict_get (AList.delete (aoc_staff_leaderboard_id example_config)
      (leaderboard_counts example_world_assigned)) (ascii ''1'') 0 = 5"
    by (simp add: example_world_assigned_def example_config_def dict_get_def ascii_def)
  have board: "board_lookup (leaderboards example_world_assigned) (ascii ''1'') = Inr example_board"
    by (simp add: board_lookup_def example_world_assigned_def example_board_def)
  have code: "join_code example_board = ascii ''code-1''" by (simp add: example_board_def)
  from count have room: "dict_get (AList.delete (aoc_staff_leaderboard_id example_config)
      (leaderboard_counts example_world_assigned)) (ascii ''1'') 0 < 200" by simp
  from join_code_sticky [OF example_assigned_fetch prev nonempty room board]
  show ?thesis
    using example_assigned_fetch prev count board by (simp add: code)
qed

subsection \<open>The forced refresh and the staff board\<close>

lemma set_dict_update: "set (dict_update d other) \<subseteq> set d \<union> set other"
proof (induction other arbitrary: d)
  case Nil
  then show ?case by (simp add: dict_update_def)
next
  case (Cons p other)
  have "set (dict_update d (p # other)) =
      set (dict_update (AList.update (fst p) (snd p) d) other)"
    by (simp add: dict_update_def case_prod_beta)
  also have "\<dots> \<subseteq> set (AList.update (fst p) (snd p) d) \<union> set other"
    by (rule Cons.IH)
  also have "\<dots> \<subseteq> set d \<union> set (p # other)"
    using set_update_subset [of "fst p" "snd p" d] by auto
  finally show ?case .
qed

lemma members_200_valid: "\<forall>p\<in>set members_200. valid_member (snd p)"
  by (auto simp: members_200_def valid_member_def star_keys_def)

lemma length_members_200: "length members_200 = 200"
  by (simp add: members_200_def)

lemma fetch_leaderboard_refresh:
  assumes "fetch_leaderboard_data cfg (http_get env) w = (Inr raw, w1)"
    and "list_all valid_member (map snd raw)"
    and "\<And>content. paste_post env (refreshes w1) content = PasteBodyNotJson"
  shows "\<exists>cached w2. fetch_leaderboard cfg env True w = (Inr cached, w2) \<and>
           leaderboard_counts w2 = leaderboard_counts w1 \<and>
           assigned_leaderboard w2 = assigned_leaderboard w1 \<and>
           leaderboards w2 = leaderboards w1"
proof -
  from parse_valid [OF assms(2), of "aoc_ignored_days cfg"] obtain p where
    "parse_raw_leaderboard_data (aoc_ignored_days cfg) raw = Inr p" by blast
  with assms(1,3) show ?thesis
    by (simp add: fetch_leaderboard_def Let_def upload_not_json)
qed

lemma example_no_counts_data:
  "fetch_leaderboard_data example_config (http_get example_env) example_world_no_counts =
     (Inr (dict_update (dict_update [] []) members_200),
      example_world_no_counts
        \<lparr>leaderboards := [staff_board, example_board],
         requests :=
           [(AOC_API_URL 2020 (ascii ''9''), ascii ''s9''), (AOC_API_URL 2020 (ascii ''1''), ascii ''s'')],
         leaderboard_counts := [(ascii ''9'', 0), (ascii ''1'', 200)]\<rparr>)"
proof -
  have staff: "fetch_attempts example_config (http_get example_env) url 2 staff_board log =
      (Inr [], staff_board, log @ [(url, ascii ''s9'')])" for url log
    by (simp add: fetch_attempts_two Let_def session_def staff_board_def example_env_def
        leaderboard_request_def request_result_def raw_members_def ascii_def)
  have public: "fetch_attempts example_config (http_get example_env) url 2 example_board log =
      (Inr members_200, example_board, log @ [(url, ascii ''s'')])" for url log
    by (simp add: fetch_attempts_two Let_def session_def example_board_def example_env_def
        leaderboard_request_def request_result_def raw_members_def)
  have ids: "board_id staff_board = ascii ''9''" "board_id example_board = ascii ''1''"
    "aoc_year example_config = 2020"
    by (simp_all add: staff_board_def example_board_def example_config_def)
  have neq: "ascii ''1'' \<noteq> ascii ''9''" by (simp add: ascii_def)
  show ?thesis
    using neq
    by (simp add: fetch_leaderboard_data_def example_world_no_counts_def staff public ids
        length_members_200)
qed

lemma example_no_counts_refresh:
  "\<exists>cached w2.
     fetch_leaderboard example_config example_env True example_world_no_counts = (Inr cached, w2) \<and>
     leaderboard_counts w2 = [(ascii ''9'', 0), (ascii ''1'', 200)] \<and>
     assigned_leaderboard w2 = [] \<and>
     leaderboards w2 = [staff_board, example_board]"
proof -
  have "set (dict_update (dict_update [] []) members_200) \<subseteq> set members_200"
    using set_dict_update [of "dict_update [] []" members_200]
    by (simp add: dict_update_def)
  with members_200_valid have
    "list_all valid_member (map snd (dict_update (dict_update [] []) members_200))"
    by (auto simp: list_all_iff)
  with example_no_counts_data have
    "\<exists>cached w2.
       fetch_leaderboard example_config example_env True example_world_no_counts = (Inr cached, w2) \<and>
       leaderboard_counts w2 =
         leaderboard_counts (example_world_no_counts
           \<lparr>leaderboards := [staff_board, example_board],
            requests :=
              [(AOC_API_URL 2020 (ascii ''9''), ascii ''s9''),
               (AOC_API_URL 2020 (ascii ''1''), ascii ''s'')],
            leaderboard_counts := [(ascii ''9'', 0), (ascii ''1'', 200)]\<rparr>) \<and>
       assigned_leaderboard w2 =
         assigned_leaderboard (example_world_no_counts
           \<lparr>leaderboards := [staff_board, example_board],
            requests :=
              [(AOC_API_URL 2020 (ascii ''9''), ascii ''s9''),
               (AOC_API_URL 2020 (ascii ''1''), ascii ''s'')],
            leaderboard_counts := [(ascii ''9'', 0), (ascii ''1'', 200)]\<rparr>) \<and>
       leaderboards w2 =
         leaderboards (example_world_no_counts
           \<lparr>leaderboards := [staff_board, example_board],
            requests :=
              [(AOC_API_URL 2020 (ascii ''9''), ascii ''s9''),
               (AOC_API_URL 2020 (ascii ''1''), ascii ''s'')],
            leaderboard_counts := [(ascii ''9'', 0), (ascii ''1'', 200)]\<rparr>)"
    by (rule fetch_leaderboard_refresh) (simp add: example_env_def)
  then show ?thesis by (simp add: example_world_no_counts_def)
qed

text \<open>
  C5 fails on the code. In the second state the counts are missing from the cache, so
  the refresh is forced; it records no participant for the staff board 9 and 200 for
  board 1, the only other board. The counts are read again and the staff board is not
  removed this time: it has the least count, user 7 is assigned to it and gets its
  join code, although every board that is not the staff board is full.
\<close>

theorem staff_join_code_when_all_boards_full:
  "fst (get_public_join_code example_config example_env 7 example_world_no_counts) =
     Inr (Some (ascii ''staff-code'')) \<and>
   leaderboard_counts (snd (get_public_join_code example_config example_env 7 example_world_no_counts)) =
     [(ascii ''9'', 0), (ascii ''1'', 200)] \<and>
   aoc_staff_leaderboard_id example_config = ascii ''9'' \<and>
   assigned_leaderboard example_world_no_counts = [] \<and>
   assigned_leaderboard (snd (get_public_join_code example_config example_env 7 example_world_no_counts)) =
     [(7, ascii ''9'')]"
proof -
  have first: "fetch_leaderboard example_config example_env False example_world_no_counts =
      (Inr (leaderboard_cache example_world_no_counts), example_world_no_counts)"
    by (rule fetch_leaderboard_cached)
       (simp add: example_world_no_counts_def example_cache_complete)
  from example_no_counts_refresh obtain cached w2 where
    refresh: "fetch_leaderboard example_config example_env True example_world_no_counts = (Inr cached, w2)"
    and counts: "leaderboard_counts w2 = [(ascii ''9'', 0), (ascii ''1'', 200)]"
    and assigned: "assigned_leaderboard w2 = []"
    and boards: "leaderboards w2 = [staff_board, example_board]"
    by blast
  have "assign_board example_config example_env 7 example_world_no_counts [] =
      (Inr (Some (ascii ''staff-code'')), w2\<lparr>assigned_leaderboard := [(7, ascii ''9'')]\<rparr>)"
    by (simp add: assign_board_def refresh counts assigned boards min_count_def dict_get_def
        board_lookup_def staff_board_def Let_def)
  moreover have "map_of (assigned_leaderboard example_world_no_counts) 7 = None"
    and "AList.delete (aoc_staff_leaderboard_id example_config)
           (leaderboard_counts example_world_no_counts) = []"
    by (simp_all add: example_world_no_counts_def)
  ultimately have "get_public_join_code example_config example_env 7 example_world_no_counts =
      (Inr (Some (ascii ''staff-code'')), w2\<lparr>assigned_leaderboard := [(7, ascii ''9'')]\<rparr>)"
    by (simp add: get_public_join_code_def first Let_def)
  then show ?thesis
    by (simp add: counts example_config_def example_world_no_counts_def)
qed

lemma min_count_member:
  assumes "min_count counts = Inr best"
  shows "best \<in> set counts"
proof -
  have "fold (\<lambda>y best. if snd y < snd best then y else best) xs x \<in> set (x # xs)"
    for x :: "pystr \<times> nat" and xs
    by (induction xs arbitrary: x) auto
  with assms show ?thesis
    by (auto simp: min_count_def split: list.splits)
qed

text \<open>
  What the code does when counts are cached: with some board other than the staff board
  in the cache of the counts, all of them full, and a user without a board that has
  room, no join code is returned and nothing is assigned.
\<close>

lemma no_join_code_when_counted_boards_full:
  assumes "fetch_leaderboard cfg env False w = (Inr cached, w1)"
    and "AList.delete (aoc_staff_leaderboard_id cfg) (leaderboard_counts w1) = counts"
    and "counts \<noteq> []"
    and "\<forall>p\<in>set counts. 200 \<le> snd p"
    and "map_of (assigned_leaderboard w1) author = None \<or>
         200 \<le> dict_get counts (the (map_of (assigned_leaderboard w1) author)) 0"
  shows "get_public_join_code cfg env author w = (Inr None, w1)"
proof -
  from assms(3) obtain best where best: "min_count counts = Inr best"
    by (cases counts) (auto simp: min_count_def)
  then have "best \<in> set counts" by (rule min_count_member)
  then have "fst best \<in> fst ` set counts" by (rule imageI)
  then obtain n where n: "map_of counts (fst best) = Some n"
    by (metis map_of_eq_None_iff not_None_eq)
  then have "(fst best, n) \<in> set counts" by (rule map_of_SomeD)
  with assms(4) have "200 \<le> n" by auto
  with n have full: "200 \<le> dict_get counts (fst best) 0" by (simp add: dict_get_def)
  have "assign_board cfg env author w1 counts = (Inr None, w1)"
    using assms(3) best full by (simp add: assign_board_def case_prod_beta)
  with assms(1,2,5) show ?thesis
    by (auto simp: get_public_join_code_def Let_def)
qed

end
